theory Spec2Isabelle
  imports Complex_Main "HOL-Library.Log_Nat"
begin

section \<open>Text escaping for the MarkdownV2 channel\<close>

text \<open>
  Python strings are sequences of code points; here a string is a \<^typ>\<open>string\<close>, the
  UTF-8 bytes of the text. Every reserved character is ASCII, and no byte of a multi-byte
  UTF-8 sequence is, so escaping bytes and escaping code points agree.
\<close>

definition backslash :: char where
  "backslash = CHR 0x5C"

text \<open>The list \<^verbatim>\<open>SPECIAL_CHARS\<close> of \<^verbatim>\<open>escape_markdown\<close>, in the order of the source.\<close>

definition SPECIAL_CHARS :: "char list" where
  "SPECIAL_CHARS =
     [backslash, CHR ''_'', CHR ''*'', CHR ''['', CHR '']'', CHR ''('', CHR '')'',
      CHR ''~'', CHR 0x60, CHR ''>'', CHR ''<'', CHR ''&'', CHR ''#'', CHR ''+'',
      CHR ''-'', CHR ''='', CHR ''|'', CHR ''{'', CHR ''}'', CHR ''.'', CHR ''!'']"

text \<open>
  \<^verbatim>\<open>"".join(f"\\{char}" if char in SPECIAL_CHARS else char for char in text)\<close>
\<close>

definition escape_markdown :: "string \<Rightarrow> string" where
  "escape_markdown text =
     concat (map (\<lambda>char. if char \<in> set SPECIAL_CHARS then [backslash, char] else [char]) text)"

text \<open>
  The source has no inverse of \<^const>\<open>escape_markdown\<close>. This one follows the words of the
  specification, "removing one escape before each reserved character": reading from the
  left, an escape character followed by a reserved character is dropped and the reserved
  character kept; anything else is kept as it is.
\<close>

fun spec_unescape :: "string \<Rightarrow> string" where
  "spec_unescape (a # b # rest) =
     (if a = backslash \<and> b \<in> set SPECIAL_CHARS then b # spec_unescape rest
      else a # spec_unescape (b # rest))"
| "spec_unescape [a] = [a]"
| "spec_unescape [] = []"

section \<open>Instrument registry\<close>

text \<open>
  A Python dict keeps insertion order; assigning to a key that is present replaces its
  value in place. The registry is an association list from label to table name, built
  as the module does: a dict comprehension, then two calls of \<^verbatim>\<open>update\<close>.
\<close>

fun dict_setitem :: "('k \<times> 'v) list \<Rightarrow> 'k \<Rightarrow> 'v \<Rightarrow> ('k \<times> 'v) list" where
  "dict_setitem [] k v = [(k, v)]"
| "dict_setitem ((k', v') # d) k v =
     (if k' = k then (k, v) # d else (k', v') # dict_setitem d k v)"

definition dict_update :: "('k \<times> 'v) list \<Rightarrow> ('k \<times> 'v) list \<Rightarrow> ('k \<times> 'v) list" where
  "dict_update d items = foldl (\<lambda>acc (k, v). dict_setitem acc k v) d items"

definition binance_items :: "(string \<times> string) list" where
  "binance_items =
     [(''ADAUSDT'', ''FutT''), (''BNBUSDT'', ''FutT''), (''BTCUSDT'', ''FutT''),
      (''DOGEUSDT'', ''FutT''), (''ETHUSDT'', ''FutT''), (''FTMUSDT'', ''FutT''),
      (''LINKUSDT'', ''FutT''), (''NEARUSDT'', ''FutT''), (''SOLUSDT'', ''FutT''),
      (''XRPUSDT'', ''FutT''), (''WIFUSDT'', ''FutT''), (''NOTUSDT'', ''FutT''),
      (''SUIUSDT'', ''FutT''), (''RAREUSDT'', ''FutT'')]"

definition bitmex_items :: "string list" where
  "bitmex_items = [''XBTUSDT'', ''ETHUSDT'', ''SOLUSDT'']"

definition crypto_items :: "(string \<times> string) list" where
  "crypto_items =
     [(''BTCUSD_PERP'', ''Fut''), (''ETHUSD_PERP'', ''Fut''), (''SOLUSD_PERP'', ''Fut''),
      (''XRPUSD_PERP'', ''Fut''), (''BTC_USD'', ''Spt''), (''ETH_USD'', ''Spt''),
      (''SOL_USD'', ''Spt''), (''XRP_USD'', ''Spt'')]"

definition instruments :: "(string \<times> string) list" where
  "instruments =
     dict_update
       (dict_update
          (dict_update []
             (map (\<lambda>(inst, segm).
                     (inst @ '' ('' @ segm @ '')'',
                      ''Binance'' @ segm @ ''_'' @ inst @ ''_Binance_'' @ segm @ ''_PERPETUAL''))
                binance_items))
          (map (\<lambda>inst. (inst @ '' (Fut)'', ''BitMEX_'' @ inst @ ''_BitMEX_PERP''))
             bitmex_items))
       (map (\<lambda>(inst, segm).
               (inst @ '' ('' @ segm @ '')'',
                ''Crypto_'' @ inst @ ''_Crypto_'' @ segm @ ''_''
                  @ (if segm = ''Spt'' then ''SPOT'' else ''PERP'')))
          crypto_items)"

section \<open>The numbers of the event loop's clock\<close>

text \<open>
  \<^verbatim>\<open>loop.time()\<close> returns a Python float, an IEEE binary64 number, and the loop adds and
  subtracts such numbers. \<open>Finite m e\<close> is the number \<open>m * 2 ^ e\<close>; a binary64 number
  has \<open>\<bar>m\<bar> < 2 ^ 53\<close> and \<open>- 1074 \<le> e \<le> 971\<close>. The sign of a zero is not kept: the loop
  only compares with 0 and tests for 0.
\<close>

datatype double = Finite int int | PosInf | NegInf | NaN

instantiation double :: zero
begin

definition zero_double :: double where
  "zero_double = Finite 0 0"

instance ..

end

text \<open>
  The exact number \<open>m * 2 ^ e\<close> rounded to a significand of 53 bits, to nearest and to
  even on a tie; a result of \<open>2 ^ 1024\<close> or more overflows to an infinity. The exact sum
  of two binary64 numbers is a multiple of \<open>2 ^ - 1074\<close>, so that no underflow happens.
\<close>

definition round_double :: "int \<Rightarrow> int \<Rightarrow> double" where
  "round_double m e =
     (let a = \<bar>m\<bar>;
          shift = bitlen a - 53;
          q = (if shift \<le> 0 then a
               else (let d = 2 ^ nat shift; q0 = a div d; r = a mod d
                     in if d < 2 * r \<or> (d = 2 * r \<and> odd q0) then q0 + 1 else q0));
          e' = (if shift \<le> 0 then e else e + shift)
      in if 0 < q \<and> 1024 < bitlen q + e' then (if m < 0 then NegInf else PosInf)
         else Finite (if m < 0 then - q else q) e')"

fun dneg :: "double \<Rightarrow> double" where
  "dneg (Finite m e) = Finite (- m) e"
| "dneg PosInf = NegInf"
| "dneg NegInf = PosInf"
| "dneg NaN = NaN"

text \<open>\<^verbatim>\<open>x + y\<close> and \<^verbatim>\<open>x - y\<close> on floats.\<close>

fun dadd :: "double \<Rightarrow> double \<Rightarrow> double" where
  "dadd (Finite m1 e1) (Finite m2 e2) =
     round_double (m1 * 2 ^ nat (e1 - min e1 e2) + m2 * 2 ^ nat (e2 - min e1 e2)) (min e1 e2)"
| "dadd NaN y = NaN"
| "dadd x NaN = NaN"
| "dadd PosInf NegInf = NaN"
| "dadd NegInf PosInf = NaN"
| "dadd PosInf y = PosInf"
| "dadd NegInf y = NegInf"
| "dadd x PosInf = PosInf"
| "dadd x NegInf = NegInf"

definition dsub :: "double \<Rightarrow> double \<Rightarrow> double" where
  "dsub x y = dadd x (dneg y)"

text \<open>\<^verbatim>\<open>x < y\<close> on floats: exact, and false when an operand is not a number.\<close>

fun dless :: "double \<Rightarrow> double \<Rightarrow> bool" where
  "dless (Finite m1 e1) (Finite m2 e2) =
     (m1 * 2 ^ nat (e1 - min e1 e2) < m2 * 2 ^ nat (e2 - min e1 e2))"
| "dless NaN y = False"
| "dless x NaN = False"
| "dless x NegInf = False"
| "dless PosInf y = False"
| "dless x PosInf = True"
| "dless NegInf y = True"

text \<open>
  The conversion of an \<^verbatim>\<open>int\<close> operand to a float, \<^verbatim>\<open>max(0, x)\<close> (Python keeps the
  first argument unless the second is greater), and the truth value of a number in
  \<^verbatim>\<open>if sleep_time:\<close>.
\<close>

definition double_of_int :: "int \<Rightarrow> double" where
  "double_of_int i = round_double i 0"

definition py_max_0 :: "double \<Rightarrow> double" where
  "py_max_0 x = (if dless 0 x then x else 0)"

fun truthy :: "double \<Rightarrow> bool" where
  "truthy (Finite m e) = (m \<noteq> 0)"
| "truthy PosInf = True"
| "truthy NegInf = True"
| "truthy NaN = True"

section \<open>Exceptions, values of the data source, and effects\<close>

text \<open>
  The exceptions the calls of the script can raise. \<^verbatim>\<open>asyncio.CancelledError\<close> derives
  from \<^verbatim>\<open>BaseException\<close>, every other one from \<^verbatim>\<open>Exception\<close>.
\<close>

datatype exn =
    TelegramError
  | CancelledError
  | CalledProcessError int
  | IndexError
  | DatabaseError
  | OSError

fun is_Exception :: "exn \<Rightarrow> bool" where
  "is_Exception CancelledError = False"
| "is_Exception _ = True"

fun is_TelegramError :: "exn \<Rightarrow> bool" where
  "is_TelegramError TelegramError = True"
| "is_TelegramError _ = False"

fun is_CalledProcessError :: "exn \<Rightarrow> bool" where
  "is_CalledProcessError (CalledProcessError _) = True"
| "is_CalledProcessError _ = False"

text \<open>
  A cell of the queried data frame: a timestamp without time zone (nanoseconds, on the
  clock of \<^verbatim>\<open>datetime.now()\<close>, which is without time zone too) or pandas' missing
  value \<^verbatim>\<open>NaT\<close>. A data frame is the list of the cells of its first column, one per
  row. A column with a time zone, whose values pandas refuses to compare with
  \<^verbatim>\<open>datetime.now()\<close>, is not part of this model.
\<close>

datatype cell = Timestamp int | NaT

text \<open>\<^verbatim>\<open>query_df.iloc[0, 0]\<close>: an empty frame has no row 0.\<close>

definition iloc00 :: "cell list \<Rightarrow> exn + cell" where
  "iloc00 df = (case df of [] \<Rightarrow> Inl IndexError | v # _ \<Rightarrow> Inr v)"

text \<open>\<^verbatim>\<open>pd.Timedelta(minutes=m)\<close>, in nanoseconds.\<close>

definition Timedelta_minutes :: "int \<Rightarrow> int" where
  "Timedelta_minutes m = m * 60 * 1000000000"

text \<open>\<^verbatim>\<open>value < d\<close> for a cell and a datetime: every comparison with \<^verbatim>\<open>NaT\<close> is false.\<close>

fun cell_less :: "cell \<Rightarrow> int \<Rightarrow> bool" where
  "cell_less (Timestamp t) d = (t < d)"
| "cell_less NaT d = False"

text \<open>
  \<^verbatim>\<open>datetime_minutes_ago = datetime.now() - pd.Timedelta(minutes=10)\<close>,
  \<^verbatim>\<open>has_passed_minutes = query_df.iloc[0, 0] < datetime_minutes_ago\<close>.
\<close>

definition has_passed_minutes :: "cell \<Rightarrow> int \<Rightarrow> bool" where
  "has_passed_minutes v now =
     (let datetime_minutes_ago = now - Timedelta_minutes 10
      in cell_less v datetime_minutes_ago)"

datatype log_record =
    InitializingBot
  | BotInitialized string
  | InitError exn
  | StartingMonitor
  | TableValue string cell
  | ScriptOk
  | ScriptFailed exn
  | Sleeping double
  | Cancelled
  | Unexpected exn

text \<open>What the script does to the outside, in the order it does it.\<close>

datatype event =
    Query string
  | Log log_record
  | GetMe
  | SendMessage string
  | SubprocessRun
  | Sleep double

text \<open>
  What the outside answers during one cycle: the result of \<^verbatim>\<open>client.query_df\<close> for a
  query, the reading of \<^verbatim>\<open>datetime.now()\<close> in the iteration for a table, the result of
  \<^verbatim>\<open>bot.send_message\<close> for a text (\<open>None\<close>: sent), how the restart script ends, the
  reading of \<^verbatim>\<open>loop.time()\<close> after the work of the cycle, the result of
  \<^verbatim>\<open>asyncio.sleep\<close> (\<open>None\<close>: it returns), and the reading of \<^verbatim>\<open>loop.time()\<close> with
  which the next iteration starts. The first reading of the loop is a parameter of the
  loop; every reading is an answer of the outside, none is computed here.
\<close>

datatype run_outcome = Completed int | NotStarted

record cycle_env =
  query_df :: "string \<Rightarrow> exn + cell list"
  datetime_now :: "string \<Rightarrow> int"
  send_message :: "string \<Rightarrow> exn option"
  script :: run_outcome
  time_after :: double
  sleep :: "exn option"
  next_start :: double

text \<open>Prepend the events of a step to the events of its continuation.\<close>

fun emit :: "event list \<Rightarrow> 'a \<times> event list \<Rightarrow> 'a \<times> event list" where
  "emit evs (r, tr) = (r, evs @ tr)"

section \<open>One cycle: \<^verbatim>\<open>alert_if_instrument_inactive\<close>\<close>

definition select_max :: "string \<Rightarrow> string" where
  "select_max table = ''SELECT max(o_ts_exch) FROM '' @ table"

text \<open>
  The body of the \<^verbatim>\<open>for\<close> loop for one table, up to the comparison: the query, the
  cell read twice by \<^verbatim>\<open>iloc\<close> (for the log line and for the comparison), the reading of
  the clock and \<^verbatim>\<open>has_passed_minutes\<close>. The result is the cell and the flag.
\<close>

definition check_table :: "cycle_env \<Rightarrow> string \<Rightarrow> exn + cell \<times> bool" where
  "check_table env table =
     (case query_df env (select_max table) of
        Inl e \<Rightarrow> Inl e
      | Inr df \<Rightarrow>
          (case iloc00 df of
             Inl e \<Rightarrow> Inl e
           | Inr v \<Rightarrow> Inr (v, has_passed_minutes v (datetime_now env table))))"

text \<open>
  The \<^verbatim>\<open>for\<close> loop over \<^verbatim>\<open>instruments.items()\<close>, with the list
  \<^verbatim>\<open>failed_instruments\<close> as accumulator. An exception of the query or of \<^verbatim>\<open>iloc\<close>
  leaves the loop at once.
\<close>

fun check_instruments ::
  "cycle_env \<Rightarrow> (string \<times> string) list \<Rightarrow> string list \<Rightarrow> (exn + string list) \<times> event list"
where
  "check_instruments env [] failed_instruments = (Inr failed_instruments, [])"
| "check_instruments env ((instrument, table) # rest) failed_instruments =
     (case check_table env table of
        Inl e \<Rightarrow> (Inl e, [Query (select_max table)])
      | Inr (v, has_passed) \<Rightarrow>
          emit [Query (select_max table), Log (TableValue table v)]
            (check_instruments env rest
               (if has_passed then failed_instruments @ [instrument]
                else failed_instruments)))"

text \<open>
  The staleness result of a table (the flag, when the query gave a cell), and the failing
  sequence in the words of the specification: the stale instruments, in the order of the
  registry. They are compared with the loop below.
\<close>

definition is_stale :: "cycle_env \<Rightarrow> string \<Rightarrow> bool" where
  "is_stale env table =
     (case check_table env table of Inl e \<Rightarrow> False | Inr (v, has_passed) \<Rightarrow> has_passed)"

definition spec_failing :: "cycle_env \<Rightarrow> (string \<times> string) list \<Rightarrow> string list" where
  "spec_failing env insts =
     map fst (filter (\<lambda>(instrument, table). is_stale env table) insts)"

text \<open>\<^verbatim>\<open>str(n)\<close> for a length, and \<^verbatim>\<open>sep.join(parts)\<close>.\<close>

fun str_nat :: "nat \<Rightarrow> string" where
  "str_nat n =
     (if n < 10 then [char_of (48 + n)]
      else str_nat (n div 10) @ [char_of (48 + n mod 10)])"

fun join :: "string \<Rightarrow> string list \<Rightarrow> string" where
  "join sep [] = []"
| "join sep [x] = x"
| "join sep (x # y # ys) = x @ sep @ join sep (y # ys)"

text \<open>The warning sign and its variation selector (U+26A0, U+FE0F), in UTF-8.\<close>

definition warning_sign :: string where
  "warning_sign = [CHR 0xE2, CHR 0x9A, CHR 0xA0, CHR 0xEF, CHR 0xB8, CHR 0x8F]"

definition alert_text :: "string list \<Rightarrow> string" where
  "alert_text failed_instruments =
     warning_sign @ '' Alert: '' @ str_nat (length failed_instruments) @ '' instruments ''
       @ join '', ''
           (map (\<lambda>failed_instrument. ''*'' @ escape_markdown failed_instrument @ ''*'')
              failed_instruments)
       @ '' stopped updating''"

text \<open>
  \<^verbatim>\<open>subprocess.run(args, check=True)\<close>: a non-zero exit status raises
  \<^verbatim>\<open>CalledProcessError\<close>; a process that cannot be started raises \<^verbatim>\<open>OSError\<close>.
\<close>

definition subprocess_run :: "run_outcome \<Rightarrow> exn + unit" where
  "subprocess_run out =
     (case out of
        Completed returncode \<Rightarrow>
          if returncode \<noteq> 0 then Inl (CalledProcessError returncode) else Inr ()
      | NotStarted \<Rightarrow> Inl OSError)"

text \<open>The \<^verbatim>\<open>try\<close> block around the restart script.\<close>

definition restart_services :: "cycle_env \<Rightarrow> (exn + unit) \<times> event list" where
  "restart_services env =
     (case subprocess_run (script env) of
        Inr u \<Rightarrow> (Inr (), [SubprocessRun, Log ScriptOk])
      | Inl e \<Rightarrow>
          if is_CalledProcessError e then (Inr (), [SubprocessRun, Log (ScriptFailed e)])
          else (Inl e, [SubprocessRun]))"

definition alert_if_instrument_inactive ::
  "cycle_env \<Rightarrow> (string \<times> string) list \<Rightarrow> (exn + unit) \<times> event list"
where
  "alert_if_instrument_inactive env insts =
     (case check_instruments env insts [] of
        (Inl e, tr) \<Rightarrow> (Inl e, tr)
      | (Inr failed_instruments, tr) \<Rightarrow>
          if failed_instruments \<noteq> [] then
            (case send_message env (alert_text failed_instruments) of
               Some e \<Rightarrow> (Inl e, tr @ [SendMessage (alert_text failed_instruments)])
             | None \<Rightarrow>
                 emit (tr @ [SendMessage (alert_text failed_instruments)])
                   (restart_services env))
          else (Inr (), tr))"

section \<open>The monitoring loop: \<^verbatim>\<open>main\<close>\<close>

text \<open>
  The body of \<^verbatim>\<open>while True\<close>, entered when \<^verbatim>\<open>loop.time()\<close> reads \<open>clock\<close>. It
  raises, or it ends and the next iteration reads its own \<^verbatim>\<open>start_time\<close> from the
  clock: the result is that reading.
\<close>

definition loop_body ::
  "(string \<times> string) list \<Rightarrow> double \<Rightarrow> cycle_env \<Rightarrow> (exn + double) \<times> event list"
where
  "loop_body insts clock env =
     (let start_time = clock in
      case alert_if_instrument_inactive env insts of
        (Inl e, tr) \<Rightarrow> (Inl e, tr)
      | (Inr u, tr) \<Rightarrow>
          (let seconds = 60 * 10;
               next_run_time = dadd start_time (double_of_int seconds);
               sleep_time = py_max_0 (dsub next_run_time (time_after env))
           in if truthy sleep_time then
                (case sleep env of
                   Some e \<Rightarrow> (Inl e, tr @ [Log (Sleeping sleep_time), Sleep sleep_time])
                 | None \<Rightarrow>
                     (Inr (next_start env),
                      tr @ [Log (Sleeping sleep_time), Sleep sleep_time]))
              else (Inr (next_start env), tr)))"

text \<open>
  \<^verbatim>\<open>while True\<close> over the answers of finitely many cycles: the loop raises in one of
  them (\<open>Inl\<close>), or it is still running when the answers are used up (\<open>Inr\<close>, with the
  reading of the clock then).
\<close>

fun while_True ::
  "(string \<times> string) list \<Rightarrow> double \<Rightarrow> cycle_env list \<Rightarrow> (exn + double) \<times> event list"
where
  "while_True insts clock [] = (Inr clock, [])"
| "while_True insts clock (env # envs) =
     (case loop_body insts clock env of
        (Inl e, tr) \<Rightarrow> (Inl e, tr)
      | (Inr clock', tr) \<Rightarrow> emit tr (while_True insts clock' envs))"

datatype outcome = Returned | Raised exn | StillRunning double

text \<open>The \<^verbatim>\<open>try\<close> block around the loop, with its two handlers.\<close>

definition monitoring ::
  "(string \<times> string) list \<Rightarrow> double \<Rightarrow> cycle_env list \<Rightarrow> outcome \<times> event list"
where
  "monitoring insts clock cycles =
     (case while_True insts clock cycles of
        (Inr clock', tr) \<Rightarrow> (StillRunning clock', tr)
      | (Inl e, tr) \<Rightarrow>
          if e = CancelledError then (Returned, tr @ [Log Cancelled])
          else if is_Exception e then (Returned, tr @ [Log (Unexpected e)])
          else (Raised e, tr))"

text \<open>
  What the outside answers at startup: the constructor \<^verbatim>\<open>Bot(token=TOKEN)\<close>
  (\<open>None\<close>: a bot), \<^verbatim>\<open>bot.get_me()\<close> (the user name), and the confirmation sent with
  \<^verbatim>\<open>bot.send_message\<close>.
\<close>

record startup_env =
  Bot_init :: "exn option"
  get_me :: "exn + string"
  send_confirmation :: "string \<Rightarrow> exn option"

text \<open>The handler \<^verbatim>\<open>except TelegramError\<close> of the startup block.\<close>

definition startup_failed :: "exn \<Rightarrow> event list \<Rightarrow> outcome \<times> event list" where
  "startup_failed e tr =
     (if is_TelegramError e then (Returned, tr @ [Log (InitError e)]) else (Raised e, tr))"

definition initialized_text :: "string \<Rightarrow> string" where
  "initialized_text username = ''Bot '' @ escape_markdown username @ '' initialized successfully''"

definition main ::
  "startup_env \<Rightarrow> (string \<times> string) list \<Rightarrow> double \<Rightarrow> cycle_env list \<Rightarrow> outcome \<times> event list"
where
  "main st insts clock cycles =
     (case Bot_init st of
        Some e \<Rightarrow> (Raised e, [Log InitializingBot])
      | None \<Rightarrow>
          (case get_me st of
             Inl e \<Rightarrow> startup_failed e [Log InitializingBot, GetMe]
           | Inr username \<Rightarrow>
               (case send_confirmation st (initialized_text username) of
                  Some e \<Rightarrow>
                    startup_failed e
                      [Log InitializingBot, GetMe,
                       Log (BotInitialized (initialized_text username)),
                       SendMessage (initialized_text username)]
                | None \<Rightarrow>
                    emit
                      [Log InitializingBot, GetMe,
                       Log (BotInitialized (initialized_text username)),
                       SendMessage (initialized_text username),
                       Log StartingMonitor]
                      (monitoring insts clock cycles))))"

section \<open>Observations on traces and example runs\<close>

fun is_SendMessage :: "event \<Rightarrow> bool" where
  "is_SendMessage (SendMessage text) = True"
| "is_SendMessage _ = False"

fun is_Sleep :: "event \<Rightarrow> bool" where
  "is_Sleep (Sleep delay) = True"
| "is_Sleep _ = False"

fun is_Query :: "event \<Rightarrow> bool" where
  "is_Query (Query q) = True"
| "is_Query _ = False"

text \<open>
  A registry of three instruments and the answers of some cycles, for the concrete runs
  below. In \<open>env_one_stale\<close> the first instrument was last updated 15 minutes before
  \<^verbatim>\<open>datetime.now()\<close> and the others at that very time; the work of the cycle ends
  when the event loop's clock reads 5 and the next iteration starts at 600. The other
  environments change some answers.
\<close>

definition registry3 :: "(string \<times> string) list" where
  "registry3 = [(''A_1 (Fut)'', ''TA''), (''B_1 (Fut)'', ''TB''), (''C_1 (Fut)'', ''TC'')]"

definition env_one_stale :: cycle_env where
  "env_one_stale =
     \<lparr> query_df = (\<lambda>q. if q = select_max ''TA'' then Inr [Timestamp 0]
                        else Inr [Timestamp (Timedelta_minutes 15)]),
       datetime_now = (\<lambda>table. Timedelta_minutes 15),
       send_message = (\<lambda>text. None),
       script = Completed 0,
       time_after = Finite 5 0,
       sleep = None,
       next_start = Finite 600 0 \<rparr>"

definition env_all_fresh :: cycle_env where
  "env_all_fresh = env_one_stale \<lparr> query_df := (\<lambda>q. Inr [Timestamp (Timedelta_minutes 15)]) \<rparr>"

definition env_missing :: cycle_env where
  "env_missing =
     env_one_stale
       \<lparr> query_df := (\<lambda>q. if q = select_max ''TB'' then Inr [NaT]
                          else Inr [Timestamp (Timedelta_minutes 15)]) \<rparr>"

definition env_query_raises :: cycle_env where
  "env_query_raises =
     env_one_stale
       \<lparr> query_df := (\<lambda>q. if q = select_max ''TB'' then Inl DatabaseError
                          else Inr [Timestamp (Timedelta_minutes 15)]) \<rparr>"

definition env_send_raises :: cycle_env where
  "env_send_raises = env_one_stale \<lparr> send_message := (\<lambda>text. Some TelegramError) \<rparr>"

definition env_script_fails :: cycle_env where
  "env_script_fails = env_one_stale \<lparr> script := Completed 1 \<rparr>"

text \<open>
  A cycle whose work ends at 700, after the deadline of a start at 0; a cycle after
  whose sleep the clock reads 600.25, and one that follows it, with work ending at 700
  and the next reading at 1200.25; and a cycle whose work ends when the clock reads
  \<^verbatim>\<open>0.1 + 0.2\<close>, the float \<^verbatim>\<open>0.30000000000000004\<close>.
\<close>

definition env_slow :: cycle_env where
  "env_slow = env_all_fresh \<lparr> time_after := Finite 700 0, next_start := Finite 700 0 \<rparr>"

definition env_late :: cycle_env where
  "env_late = env_all_fresh \<lparr> next_start := Finite 2401 (- 2) \<rparr>"

definition env_after_late :: cycle_env where
  "env_after_late =
     env_all_fresh \<lparr> time_after := Finite 700 0, next_start := Finite 4801 (- 2) \<rparr>"

definition env_tenths :: cycle_env where
  "env_tenths =
     env_all_fresh
       \<lparr> time_after := Finite 1351079888211149 (- 52),
         next_start := Finite 5278535422627021 (- 43) \<rparr>"

definition startup_ok :: startup_env where
  "startup_ok =
     \<lparr> Bot_init = None, get_me = Inr ''alert_bot'', send_confirmation = (\<lambda>text. None) \<rparr>"

definition startup_no_bot :: startup_env where
  "startup_no_bot = startup_ok \<lparr> Bot_init := Some TelegramError \<rparr>"

definition startup_no_identity :: startup_env where
  "startup_no_identity = startup_ok \<lparr> get_me := Inl TelegramError \<rparr>"

definition startup_no_confirmation :: startup_env where
  "startup_no_confirmation = startup_ok \<lparr> send_confirmation := (\<lambda>text. Some TelegramError) \<rparr>"

section \<open>Properties of escaping\<close>

lemma escape_markdown_Nil: "escape_markdown [] = []"
  by (simp add: escape_markdown_def)

lemma escape_markdown_Cons:
  "escape_markdown (c # cs) =
     (if c \<in> set SPECIAL_CHARS then backslash # c # escape_markdown cs
      else c # escape_markdown cs)"
  by (simp add: escape_markdown_def)

lemma escape_markdown_append:
  "escape_markdown (xs @ ys) = escape_markdown xs @ escape_markdown ys"
  by (simp add: escape_markdown_def)

lemma backslash_special: "backslash \<in> set SPECIAL_CHARS"
  by (simp add: SPECIAL_CHARS_def)

lemma spec_unescape_plain:
  "c \<notin> set SPECIAL_CHARS \<Longrightarrow> spec_unescape (c # cs) = c # spec_unescape cs"
proof (cases cs)
  case Nil
  then show ?thesis by simp
next
  case (Cons b rest)
  assume "c \<notin> set SPECIAL_CHARS"
  with backslash_special have "c \<noteq> backslash" by auto
  with Cons show ?thesis by simp
qed

lemma spec_unescape_escape: "spec_unescape (escape_markdown s) = s"
proof (induction s)
  case Nil
  show ?case by (simp add: escape_markdown_Nil)
next
  case (Cons c cs)
  show ?case
  proof (cases "c \<in> set SPECIAL_CHARS")
    case True
    then show ?thesis using Cons.IH by (simp add: escape_markdown_Cons)
  next
    case False
    then show ?thesis using Cons.IH
      by (simp add: escape_markdown_Cons spec_unescape_plain)
  qed
qed

lemma length_escape_markdown:
  "length (escape_markdown s) = length s + length (filter (\<lambda>c. c \<in> set SPECIAL_CHARS) s)"
  by (induction s) (simp_all add: escape_markdown_Nil escape_markdown_Cons)

text \<open>
  C7: \<^const>\<open>escape_markdown\<close> works character by character and keeps the order: the
  empty text stays empty, the escape of a concatenation is the concatenation of the
  escapes, a reserved character becomes the escape character followed by itself, and
  any other character is unchanged.
\<close>

theorem C7_escape_markdown_pointwise:
  "escape_markdown [] = []
   \<and> escape_markdown (xs @ ys) = escape_markdown xs @ escape_markdown ys
   \<and> (c \<in> set SPECIAL_CHARS \<longrightarrow> escape_markdown [c] = [backslash, c])
   \<and> (c \<notin> set SPECIAL_CHARS \<longrightarrow> escape_markdown [c] = [c])
   \<and> filter (\<lambda>c. c \<notin> set SPECIAL_CHARS) (escape_markdown xs)
       = filter (\<lambda>c. c \<notin> set SPECIAL_CHARS) xs"
proof -
  have "filter (\<lambda>c. c \<notin> set SPECIAL_CHARS) (escape_markdown xs)
          = filter (\<lambda>c. c \<notin> set SPECIAL_CHARS) xs"
    by (induction xs)
       (simp_all add: escape_markdown_Nil escape_markdown_Cons backslash_special)
  then show ?thesis
    by (simp add: escape_markdown_Nil escape_markdown_append escape_markdown_Cons)
qed

theorem C7_escape_markdown_pointwise_witness:
  "escape_markdown (''a_'' @ ''b.c'') = ''a'' @ [backslash] @ ''_b'' @ [backslash] @ ''.c''
   \<and> escape_markdown ''_'' = [backslash, CHR ''_'']
   \<and> escape_markdown ''a'' = ''a''"
proof -
  have s: "CHR ''_'' \<in> set SPECIAL_CHARS" "CHR ''.'' \<in> set SPECIAL_CHARS"
    by (simp_all add: SPECIAL_CHARS_def)
  have p: "CHR ''a'' \<notin> set SPECIAL_CHARS" "CHR ''b'' \<notin> set SPECIAL_CHARS"
    "CHR ''c'' \<notin> set SPECIAL_CHARS"
    by (simp_all add: SPECIAL_CHARS_def backslash_def)
  have c1: "escape_markdown ''_'' = [backslash, CHR ''_'']"
    using C7_escape_markdown_pointwise [of "[]" "[]" "CHR ''_''"] s by simp
  have c2: "escape_markdown ''.'' = [backslash, CHR ''.'']"
    using C7_escape_markdown_pointwise [of "[]" "[]" "CHR ''.''"] s by simp
  have a: "escape_markdown ''a'' = ''a''"
    using C7_escape_markdown_pointwise [of "[]" "[]" "CHR ''a''"] p by simp
  have b: "escape_markdown ''b'' = ''b''"
    using C7_escape_markdown_pointwise [of "[]" "[]" "CHR ''b''"] p by simp
  have c: "escape_markdown ''c'' = ''c''"
    using C7_escape_markdown_pointwise [of "[]" "[]" "CHR ''c''"] p by simp
  have l: "escape_markdown ''a_'' = ''a'' @ [backslash] @ ''_''"
    using C7_escape_markdown_pointwise [of "''a''" "''_''" "CHR ''a''"] a c1 by simp
  have r1: "escape_markdown ''.c'' = [backslash] @ ''.c''"
    using C7_escape_markdown_pointwise [of "''.''" "''c''" "CHR ''a''"] c2 c by simp
  have r: "escape_markdown ''b.c'' = ''b'' @ [backslash] @ ''.c''"
    using C7_escape_markdown_pointwise [of "''b''" "''.c''" "CHR ''a''"] b r1 by simp
  have "escape_markdown (''a_'' @ ''b.c'') = escape_markdown ''a_'' @ escape_markdown ''b.c''"
    using C7_escape_markdown_pointwise [of "''a_''" "''b.c''" "CHR ''a''"] by blast
  with l r c1 a show ?thesis by simp
qed

text \<open>
  C8: escaping can be undone. Removing one escape before each reserved character gives
  the original text back, escaping adds exactly one character for each occurrence of a
  reserved character, and two different texts never have the same escaped form.
\<close>

theorem C8_escape_markdown_reversible:
  "spec_unescape (escape_markdown s) = s
   \<and> length (escape_markdown s)
       = length s + length (filter (\<lambda>c. c \<in> set SPECIAL_CHARS) s)
   \<and> length (filter (\<lambda>c. c = backslash) (escape_markdown s))
       = 2 * length (filter (\<lambda>c. c = backslash) s)
         + length (filter (\<lambda>c. c \<in> set SPECIAL_CHARS \<and> c \<noteq> backslash) s)
   \<and> inj escape_markdown"
proof -
  have "inj escape_markdown"
    by (rule inj_on_inverseI [where g = spec_unescape]) (rule spec_unescape_escape)
  moreover have "length (filter (\<lambda>c. c = backslash) (escape_markdown s))
       = 2 * length (filter (\<lambda>c. c = backslash) s)
         + length (filter (\<lambda>c. c \<in> set SPECIAL_CHARS \<and> c \<noteq> backslash) s)"
    by (induction s)
       (auto simp add: escape_markdown_Nil escape_markdown_Cons backslash_special)
  ultimately show ?thesis
    by (simp add: spec_unescape_escape length_escape_markdown)
qed

theorem C8_escape_markdown_reversible_witness:
  "spec_unescape (escape_markdown ''BTC_USD (Spt)'') = ''BTC_USD (Spt)''
   \<and> length (escape_markdown ''BTC_USD (Spt)'') = 13 + 3"
proof -
  have "filter (\<lambda>c. c \<in> set SPECIAL_CHARS) ''BTC_USD (Spt)'' = ''_()''"
    by (simp add: SPECIAL_CHARS_def backslash_def)
  then show ?thesis
    using C8_escape_markdown_reversible [of "''BTC_USD (Spt)''"] by simp
qed

section \<open>The registry of the script\<close>

text \<open>
  The functions of a cycle take the registry as a parameter; the script runs them on
  \<^const>\<open>instruments\<close>, whose 25 labels are distinct and come in this order.
\<close>

lemma instruments_items:
  "instruments =
     [(''ADAUSDT (FutT)'', ''BinanceFutT_ADAUSDT_Binance_FutT_PERPETUAL''),
      (''BNBUSDT (FutT)'', ''BinanceFutT_BNBUSDT_Binance_FutT_PERPETUAL''),
      (''BTCUSDT (FutT)'', ''BinanceFutT_BTCUSDT_Binance_FutT_PERPETUAL''),
      (''DOGEUSDT (FutT)'', ''BinanceFutT_DOGEUSDT_Binance_FutT_PERPETUAL''),
      (''ETHUSDT (FutT)'', ''BinanceFutT_ETHUSDT_Binance_FutT_PERPETUAL''),
      (''FTMUSDT (FutT)'', ''BinanceFutT_FTMUSDT_Binance_FutT_PERPETUAL''),
      (''LINKUSDT (FutT)'', ''BinanceFutT_LINKUSDT_Binance_FutT_PERPETUAL''),
      (''NEARUSDT (FutT)'', ''BinanceFutT_NEARUSDT_Binance_FutT_PERPETUAL''),
      (''SOLUSDT (FutT)'', ''BinanceFutT_SOLUSDT_Binance_FutT_PERPETUAL''),
      (''XRPUSDT (FutT)'', ''BinanceFutT_XRPUSDT_Binance_FutT_PERPETUAL''),
      (''WIFUSDT (FutT)'', ''BinanceFutT_WIFUSDT_Binance_FutT_PERPETUAL''),
      (''NOTUSDT (FutT)'', ''BinanceFutT_NOTUSDT_Binance_FutT_PERPETUAL''),
      (''SUIUSDT (FutT)'', ''BinanceFutT_SUIUSDT_Binance_FutT_PERPETUAL''),
      (''RAREUSDT (FutT)'', ''BinanceFutT_RAREUSDT_Binance_FutT_PERPETUAL''),
      (''XBTUSDT (Fut)'', ''BitMEX_XBTUSDT_BitMEX_PERP''),
      (''ETHUSDT (Fut)'', ''BitMEX_ETHUSDT_BitMEX_PERP''),
      (''SOLUSDT (Fut)'', ''BitMEX_SOLUSDT_BitMEX_PERP''),
      (''BTCUSD_PERP (Fut)'', ''Crypto_BTCUSD_PERP_Crypto_Fut_PERP''),
      (''ETHUSD_PERP (Fut)'', ''Crypto_ETHUSD_PERP_Crypto_Fut_PERP''),
      (''SOLUSD_PERP (Fut)'', ''Crypto_SOLUSD_PERP_Crypto_Fut_PERP''),
      (''XRPUSD_PERP (Fut)'', ''Crypto_XRPUSD_PERP_Crypto_Fut_PERP''),
      (''BTC_USD (Spt)'', ''Crypto_BTC_USD_Crypto_Spt_SPOT''),
      (''ETH_USD (Spt)'', ''Crypto_ETH_USD_Crypto_Spt_SPOT''),
      (''SOL_USD (Spt)'', ''Crypto_SOL_USD_Crypto_Spt_SPOT''),
      (''XRP_USD (Spt)'', ''Crypto_XRP_USD_Crypto_Spt_SPOT'')]"
  by (simp add: instruments_def dict_update_def binance_items_def bitmex_items_def
        crypto_items_def)

lemma instruments_distinct: "distinct (map fst instruments)"
  by (simp add: instruments_items)

section \<open>Properties of a cycle and of the loop\<close>

lemma emit_fst: "fst (emit evs p) = fst p"
  by (cases p) simp

lemma emit_snd: "snd (emit evs p) = evs @ snd p"
  by (cases p) simp

lemma check_instruments_ok:
  "\<forall>(instrument, table) \<in> set insts. \<exists>r. check_table env table = Inr r \<Longrightarrow>
   fst (check_instruments env insts acc) = Inr (acc @ spec_failing env insts)"
proof (induction insts arbitrary: acc)
  case Nil
  show ?case by (simp add: spec_failing_def)
next
  case (Cons p insts)
  obtain instrument table where p: "p = (instrument, table)" by (cases p)
  from Cons.prems p obtain v b where r: "check_table env table = Inr (v, b)" by auto
  from Cons.prems have rest: "\<forall>(instrument, table) \<in> set insts. \<exists>r. check_table env table = Inr r"
    by simp
  show ?case using Cons.IH [OF rest] p r
    by (simp add: emit_fst spec_failing_def is_stale_def)
qed

lemma check_instruments_events:
  "ev \<in> set (snd (check_instruments env insts acc)) \<Longrightarrow>
   (\<exists>q. ev = Query q) \<or> (\<exists>l. ev = Log l)"
proof (induction insts arbitrary: acc)
  case Nil
  then show ?case by simp
next
  case (Cons p insts)
  obtain instrument table where p: "p = (instrument, table)" by (cases p)
  show ?case
  proof (cases "check_table env table")
    case (Inl e)
    with Cons.prems p show ?thesis by simp
  next
    case (Inr r)
    obtain v b where "r = (v, b)" by (cases r)
    with Inr Cons.prems p Cons.IH show ?thesis
      by (auto simp add: emit_snd)
  qed
qed

lemma check_instruments_no_send:
  "filter is_SendMessage (snd (check_instruments env insts acc)) = []"
  by (auto simp add: filter_empty_conv dest: check_instruments_events)

lemma check_instruments_no_run:
  "SubprocessRun \<notin> set (snd (check_instruments env insts acc))"
  by (auto dest: check_instruments_events)

lemma check_instruments_fails:
  "\<forall>(instrument, table) \<in> set pre. \<exists>r. check_table env table = Inr r \<Longrightarrow>
   check_table env table = Inl e \<Longrightarrow>
   check_instruments env (pre @ (instrument, table) # post) acc
     = (Inl e, snd (check_instruments env pre acc) @ [Query (select_max table)])"
proof (induction pre arbitrary: acc)
  case Nil
  then show ?case by simp
next
  case (Cons p pre)
  obtain i t where p: "p = (i, t)" by (cases p)
  from Cons.prems p obtain v b where r: "check_table env t = Inr (v, b)" by auto
  from Cons.prems have rest: "\<forall>(instrument, table) \<in> set pre. \<exists>r. check_table env table = Inr r"
    by simp
  let ?acc = "if b then acc @ [i] else acc"
  have "check_instruments env (pre @ (instrument, table) # post) ?acc
     = (Inl e, snd (check_instruments env pre ?acc) @ [Query (select_max table)])"
    using Cons.IH [OF rest Cons.prems(2)] .
  then show ?case using p r
    by (cases "check_instruments env pre ?acc") simp
qed

lemma restart_services_no_send: "filter is_SendMessage (snd (restart_services env)) = []"
  by (simp add: restart_services_def split: sum.splits)

lemma handler_cases: "e = CancelledError \<or> is_Exception e"
  by (cases e) simp_all

lemma monitoring_raises:
  "loop_body insts clock env = (Inl e, tr) \<Longrightarrow>
   monitoring insts clock (env # envs)
     = (Returned, tr @ [Log (if e = CancelledError then Cancelled else Unexpected e)])"
  using handler_cases [of e] by (auto simp add: monitoring_def)

lemma loop_body_raises:
  "alert_if_instrument_inactive env insts = (Inl e, tr) \<Longrightarrow>
   loop_body insts clock env = (Inl e, tr)"
  by (simp add: loop_body_def)

lemma check_table_one_stale:
  "check_table env_one_stale ''TA'' = Inr (Timestamp 0, True)"
  "check_table env_one_stale ''TB'' = Inr (Timestamp (Timedelta_minutes 15), False)"
  "check_table env_one_stale ''TC'' = Inr (Timestamp (Timedelta_minutes 15), False)"
  by (simp_all add: check_table_def env_one_stale_def select_max_def iloc00_def
        has_passed_minutes_def Timedelta_minutes_def)

lemma check_table_missing:
  "check_table env_missing ''TA'' = Inr (Timestamp (Timedelta_minutes 15), False)"
  "check_table env_missing ''TB'' = Inr (NaT, False)"
  "check_table env_missing ''TC'' = Inr (Timestamp (Timedelta_minutes 15), False)"
  by (simp_all add: check_table_def env_missing_def env_one_stale_def select_max_def iloc00_def
        has_passed_minutes_def Timedelta_minutes_def)

lemma check_table_query_raises:
  "check_table env_query_raises ''TA'' = Inr (Timestamp (Timedelta_minutes 15), False)"
  "check_table env_query_raises ''TB'' = Inl DatabaseError"
  "check_table env_query_raises ''TC'' = Inr (Timestamp (Timedelta_minutes 15), False)"
  by (simp_all add: check_table_def env_query_raises_def env_one_stale_def select_max_def iloc00_def
        has_passed_minutes_def Timedelta_minutes_def)

lemma check_table_send_raises:
  "check_table env_send_raises table = check_table env_one_stale table"
proof -
  have "query_df env_send_raises = query_df env_one_stale"
    "datetime_now env_send_raises = datetime_now env_one_stale"
    by (simp_all add: env_send_raises_def)
  then show ?thesis by (simp add: check_table_def split: sum.splits)
qed

text \<open>
  For a cell that is a timestamp, the flag of the loop is \<open>d > T\<close>: the instrument is
  stale if and only if \<open>now - last_update\<close> is strictly greater than ten minutes.
\<close>

lemma stale_iff_older_than_threshold:
  "query_df env (select_max table) = Inr (Timestamp t # rows) \<Longrightarrow>
   check_table env table
     = Inr (Timestamp t, datetime_now env table - t > Timedelta_minutes 10)
   \<and> is_stale env table = (datetime_now env table - t > Timedelta_minutes 10)"
  by (auto simp add: is_stale_def check_table_def iloc00_def has_passed_minutes_def)

lemma stale_iff_older_than_threshold_example:
  "query_df env_one_stale (select_max ''TA'') = Inr [Timestamp 0]
   \<and> datetime_now env_one_stale ''TA'' - 0 > Timedelta_minutes 10
   \<and> is_stale env_one_stale ''TA''
   \<and> query_df env_one_stale (select_max ''TB'') = Inr [Timestamp (Timedelta_minutes 15)]
   \<and> \<not> datetime_now env_one_stale ''TB'' - Timedelta_minutes 15 > Timedelta_minutes 10
   \<and> \<not> is_stale env_one_stale ''TB''"
proof -
  have a: "query_df env_one_stale (select_max ''TA'') = Inr (Timestamp 0 # [])"
    by (simp add: env_one_stale_def)
  have b: "query_df env_one_stale (select_max ''TB'')
             = Inr (Timestamp (Timedelta_minutes 15) # [])"
    by (simp add: env_one_stale_def select_max_def)
  have n: "datetime_now env_one_stale ''TA'' = Timedelta_minutes 15"
    "datetime_now env_one_stale ''TB'' = Timedelta_minutes 15"
    by (simp_all add: env_one_stale_def)
  show ?thesis
    using stale_iff_older_than_threshold [OF a] stale_iff_older_than_threshold [OF b] a b
    by (simp add: n Timedelta_minutes_def)
qed

text \<open>
  C1: the claim asks that an instrument without a last update is stale, as the docstring
  of \<^verbatim>\<open>alert_if_instrument_inactive\<close> does ("If an instrument has not been updated,
  it sends an alert message"). The loop misses this case. When the query for the second
  of three instruments gives the missing value \<^verbatim>\<open>NaT\<close>, the comparison is false, the
  instrument is not recorded as stale, and the cycle ends without a message and without
  running the restart script.
\<close>

theorem C1_missing_last_update_not_alerted:
  "query_df env_missing (select_max ''TB'') = Inr [NaT]
   \<and> is_stale env_missing ''TB'' = False
   \<and> fst (check_instruments env_missing registry3 []) = Inr []
   \<and> alert_if_instrument_inactive env_missing registry3
       = (Inr (),
          [Query (select_max ''TA''), Log (TableValue ''TA'' (Timestamp (Timedelta_minutes 15))),
           Query (select_max ''TB''), Log (TableValue ''TB'' NaT),
           Query (select_max ''TC''), Log (TableValue ''TC'' (Timestamp (Timedelta_minutes 15)))])"
proof -
  have q: "query_df env_missing (select_max ''TB'') = Inr [NaT]"
    by (simp add: env_missing_def)
  have c: "check_instruments env_missing registry3 []
       = (Inr [],
          [Query (select_max ''TA''), Log (TableValue ''TA'' (Timestamp (Timedelta_minutes 15))),
           Query (select_max ''TB''), Log (TableValue ''TB'' NaT),
           Query (select_max ''TC''), Log (TableValue ''TC'' (Timestamp (Timedelta_minutes 15)))])"
    by (simp add: check_table_missing registry3_def)
  show ?thesis
    using q c by (simp add: alert_if_instrument_inactive_def is_stale_def check_table_missing)
qed

text \<open>
  C2 (amended): if the query raises for an instrument X and succeeded for the instruments
  before it, the cycle is aborted at X: the exception leaves
  \<^const>\<open>alert_if_instrument_inactive\<close> after the query of X, so X is not recorded, the
  instruments after X are not queried, nothing is sent and the script is not run; the
  handler of \<^verbatim>\<open>main\<close> logs the exception and the monitoring loop ends.
\<close>

theorem C2_query_failure_aborts_cycle:
  assumes "\<forall>(i, t) \<in> set pre. \<exists>r. check_table env t = Inr r"
    and "check_table env table = Inl e"
  shows "alert_if_instrument_inactive env (pre @ (instrument, table) # post)
           = (Inl e, snd (check_instruments env pre []) @ [Query (select_max table)])
         \<and> monitoring (pre @ (instrument, table) # post) clock (env # envs)
           = (Returned,
              snd (check_instruments env pre []) @
                [Query (select_max table),
                 Log (if e = CancelledError then Cancelled else Unexpected e)])"
proof -
  let ?tr = "snd (check_instruments env pre []) @ [Query (select_max table)]"
  have a: "alert_if_instrument_inactive env (pre @ (instrument, table) # post) = (Inl e, ?tr)"
    using check_instruments_fails [OF assms, of instrument post "[]"]
    by (simp add: alert_if_instrument_inactive_def)
  from monitoring_raises [OF loop_body_raises [OF a], of clock envs] a
  show ?thesis by simp
qed

theorem C2_query_failure_aborts_cycle_witness:
  "check_table env_query_raises ''TA'' = Inr (Timestamp (Timedelta_minutes 15), False)
   \<and> check_table env_query_raises ''TB'' = Inl DatabaseError
   \<and> alert_if_instrument_inactive env_query_raises registry3
       = (Inl DatabaseError,
          [Query (select_max ''TA''), Log (TableValue ''TA'' (Timestamp (Timedelta_minutes 15))),
           Query (select_max ''TB'')])"
proof -
  have pre: "\<forall>(i, t) \<in> set [(''A_1 (Fut)'', ''TA'')]. \<exists>r. check_table env_query_raises t = Inr r"
    by (auto simp add: check_table_query_raises)
  have r: "registry3 = [(''A_1 (Fut)'', ''TA'')] @ (''B_1 (Fut)'', ''TB'') # [(''C_1 (Fut)'', ''TC'')]"
    by (simp add: registry3_def)
  show ?thesis
    using C2_query_failure_aborts_cycle [OF pre check_table_query_raises(2),
        of "''B_1 (Fut)''" "[(''C_1 (Fut)'', ''TC'')]" 0 "[]"]
    by (simp add: r check_table_query_raises)
qed

theorem C2_fail_safe_counterexample:
  "monitoring registry3 0 [env_query_raises, env_one_stale]
     = (Returned,
        [Query (select_max ''TA''), Log (TableValue ''TA'' (Timestamp (Timedelta_minutes 15))),
         Query (select_max ''TB''), Log (Unexpected DatabaseError)])"
  by (simp add: monitoring_def loop_body_def alert_if_instrument_inactive_def registry3_def
        check_table_query_raises)

text \<open>
  C4: when every query of the cycle gives a staleness result, the list collected by the
  loop is the list of the stale instruments in the order of the registry, its length is
  the number of stale results, it is empty if and only if no result is stale, and the
  cycle sends no message when it is empty and exactly one alert, built from it, otherwise.
\<close>

theorem C4_failing_is_stale_in_registry_order:
  assumes "\<forall>(instrument, table) \<in> set insts. \<exists>r. check_table env table = Inr r"
  shows "fst (check_instruments env insts [])
           = Inr (map fst (filter (\<lambda>(instrument, table). is_stale env table) insts))
         \<and> spec_failing env insts
             = map fst (filter (\<lambda>(instrument, table). is_stale env table) insts)
         \<and> length (spec_failing env insts)
             = length (filter (\<lambda>(instrument, table). is_stale env table) insts)
         \<and> (spec_failing env insts = []
              \<longleftrightarrow> (\<forall>(instrument, table) \<in> set insts. \<not> is_stale env table))
         \<and> filter is_SendMessage (snd (alert_if_instrument_inactive env insts))
             = (if spec_failing env insts = [] then []
                else [SendMessage (alert_text (spec_failing env insts))])"
proof -
  obtain tr where c: "check_instruments env insts [] = (Inr (spec_failing env insts), tr)"
    using check_instruments_ok [OF assms, of "[]"]
    by (cases "check_instruments env insts []") simp
  have ns: "filter is_SendMessage tr = []"
    using check_instruments_no_send [of env insts "[]"] c by simp
  have send: "filter is_SendMessage (snd (alert_if_instrument_inactive env insts))
             = (if spec_failing env insts = [] then []
                else [SendMessage (alert_text (spec_failing env insts))])"
    using c ns
    by (simp add: alert_if_instrument_inactive_def emit_snd restart_services_no_send
          split: option.splits)
  have empty: "spec_failing env insts = []
              \<longleftrightarrow> (\<forall>(instrument, table) \<in> set insts. \<not> is_stale env table)"
    by (auto simp add: spec_failing_def filter_empty_conv)
  show ?thesis using c send empty by (simp add: spec_failing_def)
qed

theorem C4_failing_is_stale_in_registry_order_witness:
  "map (\<lambda>(instrument, table). check_table env_one_stale table) registry3
     = [Inr (Timestamp 0, True), Inr (Timestamp (Timedelta_minutes 15), False),
        Inr (Timestamp (Timedelta_minutes 15), False)]
   \<and> fst (check_instruments env_one_stale registry3 []) = Inr [''A_1 (Fut)'']
   \<and> filter is_SendMessage (snd (alert_if_instrument_inactive env_one_stale registry3))
       = [SendMessage (alert_text [''A_1 (Fut)''])]
   \<and> map (\<lambda>(instrument, table). check_table env_all_fresh table) registry3
     = [Inr (Timestamp (Timedelta_minutes 15), False),
        Inr (Timestamp (Timedelta_minutes 15), False),
        Inr (Timestamp (Timedelta_minutes 15), False)]
   \<and> map (\<lambda>(instrument, table). is_stale env_all_fresh table) registry3
     = [False, False, False]
   \<and> fst (check_instruments env_all_fresh registry3 []) = Inr []
   \<and> filter is_SendMessage (snd (alert_if_instrument_inactive env_all_fresh registry3)) = []"
proof -
  have fresh: "check_table env_all_fresh table = Inr (Timestamp (Timedelta_minutes 15), False)"
    for table
    by (simp add: check_table_def env_all_fresh_def env_one_stale_def iloc00_def
          has_passed_minutes_def Timedelta_minutes_def)
  have okf: "\<forall>(instrument, table) \<in> set registry3. \<exists>r. check_table env_all_fresh table = Inr r"
    by (auto simp add: fresh)
  have nf: "\<forall>(instrument, table) \<in> set registry3. \<not> is_stale env_all_fresh table"
    by (simp add: is_stale_def fresh registry3_def)
  have sf: "spec_failing env_all_fresh registry3 = []"
    by (simp add: spec_failing_def is_stale_def fresh registry3_def)
  have wf: "fst (check_instruments env_all_fresh registry3 []) = Inr []
    \<and> filter is_SendMessage (snd (alert_if_instrument_inactive env_all_fresh registry3)) = []"
    using C4_failing_is_stale_in_registry_order [OF okf] sf by simp
  have ok: "\<forall>(instrument, table) \<in> set registry3. \<exists>r. check_table env_one_stale table = Inr r"
    by (auto simp add: registry3_def check_table_one_stale)
  have s: "spec_failing env_one_stale registry3 = [''A_1 (Fut)'']"
    by (simp add: spec_failing_def registry3_def is_stale_def check_table_one_stale)
  have ws: "fst (check_instruments env_one_stale registry3 []) = Inr [''A_1 (Fut)'']
    \<and> filter is_SendMessage (snd (alert_if_instrument_inactive env_one_stale registry3))
        = [SendMessage (alert_text [''A_1 (Fut)''])]"
    using C4_failing_is_stale_in_registry_order [OF ok] s by simp
  have vs: "map (\<lambda>(instrument, table). check_table env_one_stale table) registry3
     = [Inr (Timestamp 0, True), Inr (Timestamp (Timedelta_minutes 15), False),
        Inr (Timestamp (Timedelta_minutes 15), False)]"
    by (simp add: registry3_def check_table_one_stale)
  have vf: "map (\<lambda>(instrument, table). check_table env_all_fresh table) registry3
     = [Inr (Timestamp (Timedelta_minutes 15), False),
        Inr (Timestamp (Timedelta_minutes 15), False),
        Inr (Timestamp (Timedelta_minutes 15), False)]"
    "map (\<lambda>(instrument, table). is_stale env_all_fresh table) registry3
     = [False, False, False]"
    by (simp_all add: registry3_def fresh is_stale_def)
  show ?thesis
    using vs vf ws wf by blast
qed

text \<open>
  C5 (amended): if the cycle has stale instruments and sending the alert raises, the
  exception leaves the cycle right after the send, the handler of \<^verbatim>\<open>main\<close> logs it,
  and the monitoring loop ends: no sleep is scheduled and no later cycle runs.
\<close>

theorem C5_send_failure_ends_loop:
  assumes "\<forall>(instrument, table) \<in> set insts. \<exists>r. check_table env table = Inr r"
    and "spec_failing env insts \<noteq> []"
    and "send_message env (alert_text (spec_failing env insts)) = Some e"
  shows "alert_if_instrument_inactive env insts
           = (Inl e,
              snd (check_instruments env insts []) @
                [SendMessage (alert_text (spec_failing env insts))])
         \<and> monitoring insts clock (env # envs)
           = (Returned,
              snd (check_instruments env insts []) @
                [SendMessage (alert_text (spec_failing env insts)),
                 Log (if e = CancelledError then Cancelled else Unexpected e)])"
proof -
  obtain tr where c: "check_instruments env insts [] = (Inr (spec_failing env insts), tr)"
    using check_instruments_ok [OF assms(1), of "[]"]
    by (cases "check_instruments env insts []") simp
  have a: "alert_if_instrument_inactive env insts
             = (Inl e, tr @ [SendMessage (alert_text (spec_failing env insts))])"
    using c assms(2,3) by (simp add: alert_if_instrument_inactive_def)
  from monitoring_raises [OF loop_body_raises [OF a], of clock envs] a c
  show ?thesis by simp
qed

theorem C5_send_failure_ends_loop_witness:
  "map (\<lambda>(instrument, table). check_table env_send_raises table) registry3
     = [Inr (Timestamp 0, True), Inr (Timestamp (Timedelta_minutes 15), False),
        Inr (Timestamp (Timedelta_minutes 15), False)]
   \<and> spec_failing env_send_raises registry3 \<noteq> []
   \<and> send_message env_send_raises (alert_text (spec_failing env_send_raises registry3))
       = Some TelegramError
   \<and> fst (alert_if_instrument_inactive env_send_raises registry3) = Inl TelegramError
   \<and> fst (monitoring registry3 0 [env_send_raises, env_one_stale]) = Returned"
proof -
  have ok: "\<forall>(instrument, table) \<in> set registry3. \<exists>r. check_table env_send_raises table = Inr r"
    by (auto simp add: registry3_def check_table_send_raises check_table_one_stale)
  have s: "spec_failing env_send_raises registry3 \<noteq> []"
    by (simp add: spec_failing_def registry3_def is_stale_def check_table_send_raises
          check_table_one_stale)
  have m: "send_message env_send_raises (alert_text (spec_failing env_send_raises registry3))
             = Some TelegramError"
    by (simp add: env_send_raises_def)
  have vs: "map (\<lambda>(instrument, table). check_table env_send_raises table) registry3
     = [Inr (Timestamp 0, True), Inr (Timestamp (Timedelta_minutes 15), False),
        Inr (Timestamp (Timedelta_minutes 15), False)]"
    by (simp add: registry3_def check_table_send_raises check_table_one_stale)
  show ?thesis
    using C5_send_failure_ends_loop [OF ok s m, of 0 "[env_one_stale]"] vs s m by simp
qed

theorem C5_channel_error_fatal_counterexample:
  "monitoring registry3 0 [env_send_raises, env_one_stale]
     = (Returned,
        [Query (select_max ''TA''), Log (TableValue ''TA'' (Timestamp 0)),
         Query (select_max ''TB''), Log (TableValue ''TB'' (Timestamp (Timedelta_minutes 15))),
         Query (select_max ''TC''), Log (TableValue ''TC'' (Timestamp (Timedelta_minutes 15))),
         SendMessage (alert_text [''A_1 (Fut)'']),
         Log (Unexpected TelegramError)])"
proof -
  have "send_message env_send_raises (alert_text [''A_1 (Fut)'']) = Some TelegramError"
    by (simp add: env_send_raises_def)
  then show ?thesis
    by (simp add: monitoring_def loop_body_def alert_if_instrument_inactive_def registry3_def
        check_table_send_raises check_table_one_stale)
qed

lemma restart_services_trace:
  "\<exists>post. snd (restart_services env) = SubprocessRun # post \<and> SubprocessRun \<notin> set post
     \<and> filter is_SendMessage post = []"
  by (simp add: restart_services_def split: sum.splits)

lemma restart_services_fails:
  "script env = Completed rc \<Longrightarrow> rc \<noteq> 0 \<Longrightarrow>
   restart_services env = (Inr (), [SubprocessRun, Log (ScriptFailed (CalledProcessError rc))])"
  by (simp add: restart_services_def subprocess_run_def)

lemma alert_cases:
  obtains (query_raised) e tr where "check_instruments env insts [] = (Inl e, tr)"
      "alert_if_instrument_inactive env insts = (Inl e, tr)"
  | (all_fresh) tr where "check_instruments env insts [] = (Inr [], tr)"
      "alert_if_instrument_inactive env insts = (Inr (), tr)"
  | (send_raised) failed tr e where "check_instruments env insts [] = (Inr failed, tr)"
      "failed \<noteq> []" "send_message env (alert_text failed) = Some e"
      "alert_if_instrument_inactive env insts = (Inl e, tr @ [SendMessage (alert_text failed)])"
  | (sent) failed tr where "check_instruments env insts [] = (Inr failed, tr)"
      "failed \<noteq> []" "send_message env (alert_text failed) = None"
      "alert_if_instrument_inactive env insts
         = (fst (restart_services env),
            tr @ SendMessage (alert_text failed) # snd (restart_services env))"
proof (cases "check_instruments env insts []")
  case (Pair r tr)
  show ?thesis
  proof (cases r)
    case (Inl e)
    with Pair show ?thesis
      by (intro query_raised [of e tr]) (simp_all add: alert_if_instrument_inactive_def)
  next
    case (Inr failed)
    show ?thesis
    proof (cases "failed = []")
      case True
      with Pair Inr show ?thesis
        by (intro all_fresh [of tr]) (simp_all add: alert_if_instrument_inactive_def)
    next
      case False
      show ?thesis
      proof (cases "send_message env (alert_text failed)")
        case None
        with Pair Inr False have
          "alert_if_instrument_inactive env insts
             = emit (tr @ [SendMessage (alert_text failed)]) (restart_services env)"
          by (simp add: alert_if_instrument_inactive_def)
        then have "alert_if_instrument_inactive env insts
             = (fst (restart_services env),
                tr @ SendMessage (alert_text failed) # snd (restart_services env))"
          by (cases "restart_services env") simp
        with Pair Inr False None show ?thesis
          by (intro sent [of failed tr]) simp_all
      next
        case (Some e)
        with Pair Inr False show ?thesis
          by (intro send_raised [of failed tr e]) (simp_all add: alert_if_instrument_inactive_def)
      qed
    qed
  qed
qed

lemma check_trace_no_run:
  "check_instruments env insts acc = (r, tr) \<Longrightarrow> SubprocessRun \<notin> set tr"
  using check_instruments_no_run [of env insts acc] by simp

lemma check_trace_no_send:
  "check_instruments env insts acc = (r, tr) \<Longrightarrow> filter is_SendMessage tr = []"
  using check_instruments_no_send [of env insts acc] by simp

text \<open>
  C10: in every cycle the alert is sent before the restart script is run, and the script
  is run only after the send has returned. If the trace of a cycle contains the run of the
  script, the run comes right after the one message of the cycle, and that send did not
  raise; if the cycle has stale instruments and the send raises, the exception leaves the
  cycle and the script is not run.
\<close>

theorem C10_send_precedes_remediation:
  "(SubprocessRun \<in> set (snd (alert_if_instrument_inactive env insts)) \<longrightarrow>
      (\<exists>pre text post.
          snd (alert_if_instrument_inactive env insts)
            = pre @ SendMessage text # SubprocessRun # post
          \<and> send_message env text = None
          \<and> SubprocessRun \<notin> set pre \<and> SubprocessRun \<notin> set post
          \<and> filter is_SendMessage pre = [] \<and> filter is_SendMessage post = []))
   \<and> (check_instruments env insts [] = (Inr failed, tr) \<longrightarrow> failed \<noteq> [] \<longrightarrow>
        send_message env (alert_text failed) = Some e \<longrightarrow>
          alert_if_instrument_inactive env insts
            = (Inl e, tr @ [SendMessage (alert_text failed)])
          \<and> SubprocessRun \<notin> set (snd (alert_if_instrument_inactive env insts)))"
proof (cases rule: alert_cases [of env insts])
  case (query_raised e' tr')
  then show ?thesis using check_trace_no_run [of env insts "[]"] by simp
next
  case (all_fresh tr')
  then show ?thesis using check_trace_no_run [of env insts "[]"] by simp
next
  case (send_raised failed' tr' e')
  then show ?thesis using check_trace_no_run [of env insts "[]"] by auto
next
  case (sent failed' tr')
  obtain post where post: "snd (restart_services env) = SubprocessRun # post"
    "SubprocessRun \<notin> set post" "filter is_SendMessage post = []"
    using restart_services_trace [of env] by blast
  have pre: "SubprocessRun \<notin> set tr'" "filter is_SendMessage tr' = []"
    using sent(1) check_trace_no_run check_trace_no_send by blast+
  have "snd (alert_if_instrument_inactive env insts)
          = tr' @ SendMessage (alert_text failed') # SubprocessRun # post"
    using sent(4) post(1) by simp
  with sent(3) post pre have
    "\<exists>pre text post.
          snd (alert_if_instrument_inactive env insts)
            = pre @ SendMessage text # SubprocessRun # post
          \<and> send_message env text = None
          \<and> SubprocessRun \<notin> set pre \<and> SubprocessRun \<notin> set post
          \<and> filter is_SendMessage pre = [] \<and> filter is_SendMessage post = []"
    by blast
  then show ?thesis using sent(1,3) by auto
qed

lemma check_instruments_one_stale:
  "check_instruments env_one_stale registry3 []
     = (Inr [''A_1 (Fut)''],
        [Query (select_max ''TA''), Log (TableValue ''TA'' (Timestamp 0)),
         Query (select_max ''TB''), Log (TableValue ''TB'' (Timestamp (Timedelta_minutes 15))),
         Query (select_max ''TC''), Log (TableValue ''TC'' (Timestamp (Timedelta_minutes 15)))])"
  by (simp add: registry3_def check_table_one_stale)

lemma check_instruments_send_raises:
  "check_instruments env_send_raises registry3 [] = check_instruments env_one_stale registry3 []"
  by (simp add: registry3_def check_table_send_raises check_table_one_stale)

theorem C10_send_precedes_remediation_witness:
  "SubprocessRun \<in> set (snd (alert_if_instrument_inactive env_one_stale registry3))
   \<and> (\<exists>pre post.
          snd (alert_if_instrument_inactive env_one_stale registry3)
            = pre @ SendMessage (alert_text [''A_1 (Fut)'']) # SubprocessRun # post
          \<and> SubprocessRun \<notin> set pre \<and> SubprocessRun \<notin> set post)
   \<and> send_message env_send_raises (alert_text [''A_1 (Fut)'']) = Some TelegramError
   \<and> fst (alert_if_instrument_inactive env_send_raises registry3) = Inl TelegramError
   \<and> SubprocessRun \<notin> set (snd (alert_if_instrument_inactive env_send_raises registry3))"
proof -
  have sendok: "send_message env_one_stale (alert_text [''A_1 (Fut)'']) = None"
    by (simp add: env_one_stale_def)
  have script: "script env_one_stale = Completed 0"
    by (simp add: env_one_stale_def)
  have run: "SubprocessRun \<in> set (snd (alert_if_instrument_inactive env_one_stale registry3))"
    using sendok script
    by (simp add: alert_if_instrument_inactive_def check_instruments_one_stale emit_snd
          restart_services_def subprocess_run_def)
  have c: "check_instruments env_send_raises registry3 []
     = (Inr [''A_1 (Fut)''],
        [Query (select_max ''TA''), Log (TableValue ''TA'' (Timestamp 0)),
         Query (select_max ''TB''), Log (TableValue ''TB'' (Timestamp (Timedelta_minutes 15))),
         Query (select_max ''TC''), Log (TableValue ''TC'' (Timestamp (Timedelta_minutes 15)))])"
    by (simp add: check_instruments_send_raises check_instruments_one_stale)
  have s: "send_message env_send_raises (alert_text [''A_1 (Fut)'']) = Some TelegramError"
    by (simp add: env_send_raises_def)
  have first: "\<exists>pre text post.
          snd (alert_if_instrument_inactive env_one_stale registry3)
            = pre @ SendMessage text # SubprocessRun # post
          \<and> send_message env_one_stale text = None
          \<and> SubprocessRun \<notin> set pre \<and> SubprocessRun \<notin> set post
          \<and> filter is_SendMessage pre = [] \<and> filter is_SendMessage post = []"
    using C10_send_precedes_remediation [of env_one_stale registry3 "[]" "[]" TelegramError] run
    by blast
  then obtain pre msg post where f:
    "snd (alert_if_instrument_inactive env_one_stale registry3)
            = pre @ SendMessage msg # SubprocessRun # post"
    "SubprocessRun \<notin> set pre" "SubprocessRun \<notin> set post"
    "filter is_SendMessage pre = []" "filter is_SendMessage post = []"
    by blast
  have "filter is_SendMessage (snd (alert_if_instrument_inactive env_one_stale registry3))
          = [SendMessage (alert_text [''A_1 (Fut)''])]"
    using sendok
    by (simp add: alert_if_instrument_inactive_def check_instruments_one_stale emit_snd
          restart_services_no_send)
  with f have "msg = alert_text [''A_1 (Fut)'']" by simp
  with f have second: "\<exists>pre post.
          snd (alert_if_instrument_inactive env_one_stale registry3)
            = pre @ SendMessage (alert_text [''A_1 (Fut)'']) # SubprocessRun # post
          \<and> SubprocessRun \<notin> set pre \<and> SubprocessRun \<notin> set post"
    by blast
  have third: "alert_if_instrument_inactive env_send_raises registry3
            = (Inl TelegramError, 
        [Query (select_max ''TA''), Log (TableValue ''TA'' (Timestamp 0)),
         Query (select_max ''TB''), Log (TableValue ''TB'' (Timestamp (Timedelta_minutes 15))),
         Query (select_max ''TC''), Log (TableValue ''TC'' (Timestamp (Timedelta_minutes 15)))]
          @ [SendMessage (alert_text [''A_1 (Fut)''])])
          \<and> SubprocessRun \<notin> set (snd (alert_if_instrument_inactive env_send_raises registry3))"
    using C10_send_precedes_remediation [of env_send_raises registry3 "[''A_1 (Fut)'']" _ TelegramError] c s
    by blast
  show ?thesis using run second s third by simp
qed

section \<open>Properties of the clock's arithmetic and of an iteration\<close>

lemma dless_zero_Finite: "dless 0 (Finite q e) \<longleftrightarrow> 0 < q"
  by (simp add: zero_double_def zero_less_mult_iff)

lemma dless_zero_others: "dless 0 PosInf" "\<not> dless 0 NegInf" "\<not> dless 0 NaN"
  by (simp_all add: zero_double_def)

lemma round_double_pos: "dless 0 (round_double m e) \<longleftrightarrow> 0 < m"
proof -
  define a where "a = \<bar>m\<bar>"
  define shift where "shift = bitlen a - 53"
  define q where "q = (if shift \<le> 0 then a
               else (let d = 2 ^ nat shift; q0 = a div d; r = a mod d
                     in if d < 2 * r \<or> (d = 2 * r \<and> odd q0) then q0 + 1 else q0))"
  define e' where "e' = (if shift \<le> 0 then e else e + shift)"
  have r: "round_double m e =
      (if 0 < q \<and> 1024 < bitlen q + e' then (if m < 0 then NegInf else PosInf)
       else Finite (if m < 0 then - q else q) e')"
    unfolding round_double_def Let_def q_def e'_def shift_def a_def ..
  have nn: "0 \<le> a div 2 ^ nat shift"
    by (simp add: a_def pos_imp_zdiv_nonneg_iff)
  then have qnn: "0 \<le> q"
    by (simp add: q_def Let_def a_def)
  have qpos: "0 < q" if "m \<noteq> 0"
  proof (cases "shift \<le> 0")
    case True
    with that show ?thesis by (simp add: q_def a_def)
  next
    case False
    from that have apos: "0 < a" by (simp add: a_def)
    have "2 ^ nat (bitlen a - 1) \<le> a" using bitlen_bounds [OF apos] by simp
    moreover have "(2::int) ^ nat shift \<le> 2 ^ nat (bitlen a - 1)"
      by (rule power_increasing) (use False in \<open>simp_all add: shift_def\<close>)
    ultimately have "(2::int) ^ nat shift \<le> a" by linarith
    then have "0 < a div 2 ^ nat shift"
      by (simp add: pos_imp_zdiv_pos_iff)
    with False show ?thesis by (simp add: q_def Let_def)
  qed
  show ?thesis
  proof (cases "0 < m")
    case True
    with qpos have "0 < q" by simp
    with True have "round_double m e = PosInf \<or> round_double m e = Finite q e'"
      by (simp add: r)
    with True \<open>0 < q\<close> show ?thesis
      by (auto simp add: dless_zero_Finite dless_zero_others)
  next
    case False
    have "q = 0" if "m = 0"
      using that by (simp add: q_def a_def shift_def)
    with False qnn have "round_double m e = NegInf \<or> round_double m e = Finite (- q) e'
        \<or> round_double m e = Finite 0 e'"
      by (auto simp add: r)
    with False qnn show ?thesis
      by (auto simp add: dless_zero_Finite dless_zero_others)
  qed
qed

lemma round_double_exact:
  "bitlen \<bar>m\<bar> \<le> 53 \<Longrightarrow> bitlen \<bar>m\<bar> + e \<le> 1024 \<Longrightarrow> round_double m e = Finite m e"
  by (auto simp add: round_double_def Let_def)

lemma dsub_pos: "dless 0 (dsub d x) \<longleftrightarrow> dless x d"
proof (cases d; cases x)
  fix m1 e1 m e
  assume "d = Finite m1 e1" "x = Finite m e"
  then show ?thesis
    by (simp add: dsub_def round_double_pos min.commute [of e1 e])
qed (simp_all add: dsub_def zero_double_def)

lemma py_max_0_dsub:
  "py_max_0 (dsub d x) = (if dless x d then dsub d x else 0)"
  by (simp add: py_max_0_def dsub_pos)

lemma truthy_py_max_0: "truthy (py_max_0 x) \<longleftrightarrow> dless 0 x"
  by (cases x) (auto simp add: py_max_0_def zero_double_def dless_zero_Finite)

lemma loop_body_completes:
  "alert_if_instrument_inactive env insts = (Inr u, tr) \<Longrightarrow>
   loop_body insts clock env =
     (if dless (time_after env) (dadd clock (double_of_int (60 * 10))) then
        (case sleep env of
           None \<Rightarrow> Inr (next_start env)
         | Some e \<Rightarrow> Inl e,
         tr @ [Log (Sleeping (dsub (dadd clock (double_of_int (60 * 10))) (time_after env))),
               Sleep (dsub (dadd clock (double_of_int (60 * 10))) (time_after env))])
      else (Inr (next_start env), tr))"
proof -
  assume a: "alert_if_instrument_inactive env insts = (Inr u, tr)"
  let ?deadline = "dadd clock (double_of_int (60 * 10))"
  let ?sleep_time = "py_max_0 (dsub ?deadline (time_after env))"
  have t: "truthy ?sleep_time \<longleftrightarrow> dless (time_after env) ?deadline"
    by (simp only: truthy_py_max_0 dsub_pos)
  have v: "?sleep_time = dsub ?deadline (time_after env)"
    if "dless (time_after env) ?deadline"
    using that by (simp only: py_max_0_dsub if_True)
  show ?thesis
  proof (cases "dless (time_after env) ?deadline")
    case True
    with t have "truthy ?sleep_time" by simp
    then show ?thesis
      using a True v [OF True]
      by (simp add: loop_body_def Let_def split: option.splits)
  next
    case False
    with t have "\<not> truthy ?sleep_time" by simp
    then show ?thesis
      using a False by (simp add: loop_body_def Let_def)
  qed
qed

lemma double_examples:
  "double_of_int 600 = Finite 600 0"
  "dadd (Finite 2401 (- 2)) (Finite 600 0) = Finite 4801 (- 2)"
  "dsub (Finite 4801 (- 2)) (Finite 700 0) = Finite 2001 (- 2)"
  "dadd 0 (Finite 600 0) = Finite 600 0"
  "dsub (Finite 600 0) (Finite 5 0) = Finite 595 0"
  "dadd (Finite 3602879701896397 (- 55)) (Finite 600 0) = Finite 5278535422627021 (- 43)"
  "dsub (Finite 5278535422627021 (- 43)) (Finite 1351079888211149 (- 52))
     = Finite 5275896594720359 (- 43)"
  by code_simp+

lemma alert_trace_no_sleep:
  "filter is_Sleep (snd (alert_if_instrument_inactive env insts)) = []"
proof -
  have c: "filter is_Sleep tr = []" if "check_instruments env insts [] = (r, tr)" for r tr
  proof -
    from that have "tr = snd (check_instruments env insts [])" by simp
    then show ?thesis
      by (auto simp add: filter_empty_conv dest!: check_instruments_events)
  qed
  have r: "filter is_Sleep (snd (restart_services env)) = []"
    by (simp add: restart_services_def split: sum.splits)
  show ?thesis
    by (cases rule: alert_cases [of env insts]) (simp_all add: c r)
qed

lemma count_run_check:
  "check_instruments env insts acc = (r, tr) \<Longrightarrow> filter (\<lambda>ev. ev = SubprocessRun) tr = []"
  using check_trace_no_run [of env insts acc r tr] by (auto simp add: filter_empty_conv)

lemma count_run_restart:
  "length (filter (\<lambda>ev. ev = SubprocessRun) (snd (restart_services env))) = 1"
  by (simp add: restart_services_def split: sum.splits)

lemma loop_body_trace_prefix:
  "\<exists>rest. snd (loop_body insts clock env)
            = snd (alert_if_instrument_inactive env insts) @ rest"
proof (cases "alert_if_instrument_inactive env insts")
  case (Pair r tr)
  show ?thesis
  proof (cases r)
    case (Inl e)
    with Pair show ?thesis by (simp add: loop_body_raises)
  next
    case (Inr u)
    with Pair show ?thesis
      by (simp add: loop_body_completes)
  qed
qed

lemma while_True_trace_prefix:
  "\<exists>rest. snd (while_True insts clock (env # envs))
            = snd (alert_if_instrument_inactive env insts) @ rest"
proof -
  obtain r tr where l: "loop_body insts clock env = (r, tr)"
    by (cases "loop_body insts clock env")
  obtain rest where p: "tr = snd (alert_if_instrument_inactive env insts) @ rest"
    using loop_body_trace_prefix [of insts clock env] l by auto
  show ?thesis
  proof (cases r)
    case (Inl e)
    with l p show ?thesis by simp
  next
    case (Inr c)
    with l p show ?thesis by (simp add: emit_snd)
  qed
qed

lemma while_True_continues:
  "loop_body insts clock env = (Inr clock', tr) \<Longrightarrow>
   while_True insts clock (env # envs) = emit tr (while_True insts clock' envs)"
  by simp

lemma monitoring_trace_prefix:
  "\<exists>rest. snd (monitoring insts clock cycles) = snd (while_True insts clock cycles) @ rest"
  by (cases "while_True insts clock cycles")
     (auto simp add: monitoring_def split: sum.splits)

lemma monitoring_two_cycles:
  assumes "loop_body insts clock env = (Inr clock', tr)"
  shows "\<exists>rest. snd (monitoring insts clock (env # env' # envs))
                  = tr @ snd (alert_if_instrument_inactive env' insts) @ rest"
proof -
  obtain r1 where "snd (while_True insts clock' (env' # envs))
                     = snd (alert_if_instrument_inactive env' insts) @ r1"
    using while_True_trace_prefix by blast
  then have "snd (while_True insts clock (env # env' # envs))
               = tr @ snd (alert_if_instrument_inactive env' insts) @ r1"
    using while_True_continues [OF assms, of "env' # envs"] by (simp add: emit_snd)
  moreover obtain r2 where "snd (monitoring insts clock (env # env' # envs))
               = snd (while_True insts clock (env # env' # envs)) @ r2"
    using monitoring_trace_prefix by blast
  ultimately show ?thesis by simp
qed

lemma monitoring_one_cycle:
  "loop_body insts clock env = (Inr clock', tr) \<Longrightarrow>
   monitoring insts clock [env] = (StillRunning clock', tr)"
  by (simp add: monitoring_def)

text \<open>
  C6: a cycle runs the restart script at most once, and only when the list of failed
  instruments is not empty. If the script exits with a non-zero status, the cycle returns
  normally: after the one alert and the one run there is only the error log line (no
  second run, no second message). The loop then computes the deadline
  \<open>start_time + 600\<close>, sleeps until it when the clock has not reached it, and goes on:
  it is still running after this cycle, and when the answers of a further cycle are
  given, the queries of that cycle follow in the trace.
\<close>

theorem C6_remediation_once_and_contained:
  "length (filter (\<lambda>ev. ev = SubprocessRun) (snd (alert_if_instrument_inactive env insts))) \<le> 1
   \<and> (SubprocessRun \<in> set (snd (alert_if_instrument_inactive env insts)) \<longrightarrow>
        (\<exists>failed tr. check_instruments env insts [] = (Inr failed, tr) \<and> failed \<noteq> []))
   \<and> (SubprocessRun \<in> set (snd (alert_if_instrument_inactive env insts)) \<longrightarrow>
        script env = Completed returncode \<longrightarrow> returncode \<noteq> 0 \<longrightarrow>
          (\<exists>pre. alert_if_instrument_inactive env insts
                   = (Inr (),
                      pre @ [SubprocessRun, Log (ScriptFailed (CalledProcessError returncode))])
                 \<and> SubprocessRun \<notin> set pre
                 \<and> length (filter is_SendMessage pre) = 1)
          \<and> (sleep env = None \<longrightarrow>
                (let deadline = dadd clock (double_of_int (60 * 10));
                     now = time_after env;
                     sleeping = (if dless now deadline
                                 then [Log (Sleeping (dsub deadline now)), Sleep (dsub deadline now)]
                                 else [])
                 in loop_body insts clock env
                      = (Inr (next_start env),
                         snd (alert_if_instrument_inactive env insts) @ sleeping)
                    \<and> monitoring insts clock [env]
                      = (StillRunning (next_start env),
                         snd (alert_if_instrument_inactive env insts) @ sleeping)
                    \<and> (\<exists>rest. snd (monitoring insts clock (env # env' # envs))
                                 = snd (alert_if_instrument_inactive env insts) @ sleeping
                                   @ snd (alert_if_instrument_inactive env' insts) @ rest))))"
proof (cases rule: alert_cases [of env insts])
  case (query_raised e' tr')
  then show ?thesis
    using check_trace_no_run [of env insts "[]"] count_run_check [of env insts "[]"] by simp
next
  case (all_fresh tr')
  then show ?thesis
    using check_trace_no_run [of env insts "[]"] count_run_check [of env insts "[]"] by simp
next
  case (send_raised failed' tr' e')
  then show ?thesis
    using check_trace_no_run [of env insts "[]"] count_run_check [of env insts "[]"] by simp
next
  case (sent failed' tr')
  have pre: "SubprocessRun \<notin> set tr'" "filter is_SendMessage tr' = []"
    "filter (\<lambda>ev. ev = SubprocessRun) tr' = []"
    using sent(1) check_trace_no_run check_trace_no_send count_run_check by blast+
  have once: "length (filter (\<lambda>ev. ev = SubprocessRun)
                 (snd (alert_if_instrument_inactive env insts))) \<le> 1"
    using sent(4) pre(3) count_run_restart [of env] by simp
  have nonempty: "\<exists>failed tr. check_instruments env insts [] = (Inr failed, tr) \<and> failed \<noteq> []"
    using sent(1,2) by blast
  let ?deadline = "dadd clock (double_of_int (60 * 10))"
  let ?sleeping = "if dless (time_after env) ?deadline
                   then [Log (Sleeping (dsub ?deadline (time_after env))),
                         Sleep (dsub ?deadline (time_after env))]
                   else []"
  have contained:
    "(\<exists>pre. alert_if_instrument_inactive env insts
                   = (Inr (),
                      pre @ [SubprocessRun, Log (ScriptFailed (CalledProcessError returncode))])
                 \<and> SubprocessRun \<notin> set pre
                 \<and> length (filter is_SendMessage pre) = 1)
          \<and> (sleep env = None \<longrightarrow>
                loop_body insts clock env
                      = (Inr (next_start env),
                         snd (alert_if_instrument_inactive env insts) @ ?sleeping)
                    \<and> monitoring insts clock [env]
                      = (StillRunning (next_start env),
                         snd (alert_if_instrument_inactive env insts) @ ?sleeping)
                    \<and> (\<exists>rest. snd (monitoring insts clock (env # env' # envs))
                                 = snd (alert_if_instrument_inactive env insts) @ ?sleeping
                                   @ snd (alert_if_instrument_inactive env' insts) @ rest))"
    if rc: "script env = Completed returncode" "returncode \<noteq> 0"
  proof -
    let ?pre = "tr' @ [SendMessage (alert_text failed')]"
    let ?tr = "?pre @ [SubprocessRun, Log (ScriptFailed (CalledProcessError returncode))]"
    have a: "alert_if_instrument_inactive env insts = (Inr (), ?tr)"
      using sent(4) restart_services_fails [OF rc] by simp
    have p: "SubprocessRun \<notin> set ?pre" "length (filter is_SendMessage ?pre) = 1"
      using pre by simp_all
    have "loop_body insts clock env = (Inr (next_start env), ?tr @ ?sleeping)
          \<and> monitoring insts clock [env] = (StillRunning (next_start env), ?tr @ ?sleeping)
          \<and> (\<exists>rest. snd (monitoring insts clock (env # env' # envs))
                       = ?tr @ ?sleeping @ snd (alert_if_instrument_inactive env' insts) @ rest)"
      if "sleep env = None"
    proof -
      have l: "loop_body insts clock env = (Inr (next_start env), ?tr @ ?sleeping)"
        using loop_body_completes [OF a, of clock] that by simp
      from monitoring_one_cycle [OF l] monitoring_two_cycles [OF l, of env' envs] l
      show ?thesis by simp
    qed
    with a p show ?thesis by auto
  qed
  from once nonempty contained show ?thesis
    unfolding Let_def by blast
qed

lemma check_table_script_fails:
  "check_table env_script_fails table = check_table env_one_stale table"
proof -
  have "query_df env_script_fails = query_df env_one_stale"
    "datetime_now env_script_fails = datetime_now env_one_stale"
    by (simp_all add: env_script_fails_def)
  then show ?thesis by (simp add: check_table_def split: sum.splits)
qed

lemma alert_script_fails:
  "alert_if_instrument_inactive env_script_fails registry3
     = (Inr (),
        [Query (select_max ''TA''), Log (TableValue ''TA'' (Timestamp 0)),
         Query (select_max ''TB''), Log (TableValue ''TB'' (Timestamp (Timedelta_minutes 15))),
         Query (select_max ''TC''), Log (TableValue ''TC'' (Timestamp (Timedelta_minutes 15))),
         SendMessage (alert_text [''A_1 (Fut)'']),
         SubprocessRun, Log (ScriptFailed (CalledProcessError 1))])"
proof -
  have "send_message env_script_fails (alert_text [''A_1 (Fut)'']) = None"
    "script env_script_fails = Completed 1"
    by (simp_all add: env_script_fails_def env_one_stale_def)
  then show ?thesis
    by (simp add: alert_if_instrument_inactive_def registry3_def check_table_script_fails
          check_table_one_stale restart_services_def subprocess_run_def)
qed

lemma alert_all_fresh:
  "alert_if_instrument_inactive env_all_fresh registry3
     = (Inr (),
        [Query (select_max ''TA''), Log (TableValue ''TA'' (Timestamp (Timedelta_minutes 15))),
         Query (select_max ''TB''), Log (TableValue ''TB'' (Timestamp (Timedelta_minutes 15))),
         Query (select_max ''TC''), Log (TableValue ''TC'' (Timestamp (Timedelta_minutes 15)))])"
proof -
  have "check_table env_all_fresh table = Inr (Timestamp (Timedelta_minutes 15), False)" for table
    by (simp add: check_table_def env_all_fresh_def env_one_stale_def iloc00_def
          has_passed_minutes_def Timedelta_minutes_def)
  then show ?thesis
    by (simp add: alert_if_instrument_inactive_def registry3_def)
qed

lemma alert_same_queries:
  assumes "query_df env = query_df env_all_fresh" "datetime_now env = datetime_now env_all_fresh"
  shows "alert_if_instrument_inactive env registry3
           = alert_if_instrument_inactive env_all_fresh registry3"
proof -
  have "check_table env table = Inr (Timestamp (Timedelta_minutes 15), False)" for table
    using assms
    by (simp add: check_table_def env_all_fresh_def env_one_stale_def iloc00_def
          has_passed_minutes_def Timedelta_minutes_def)
  then show ?thesis
    by (simp add: alert_all_fresh) (simp add: alert_if_instrument_inactive_def registry3_def)
qed

lemma alert_slow:
  "alert_if_instrument_inactive env_slow registry3
     = alert_if_instrument_inactive env_all_fresh registry3"
  by (rule alert_same_queries) (simp_all add: env_slow_def)

lemma alert_late:
  "alert_if_instrument_inactive env_late registry3
     = alert_if_instrument_inactive env_all_fresh registry3"
  by (rule alert_same_queries) (simp_all add: env_late_def)

lemma alert_tenths:
  "alert_if_instrument_inactive env_tenths registry3
     = alert_if_instrument_inactive env_all_fresh registry3"
  by (rule alert_same_queries) (simp_all add: env_tenths_def)

theorem C6_remediation_once_and_contained_witness:
  "SubprocessRun \<in> set (snd (alert_if_instrument_inactive env_script_fails registry3))
   \<and> script env_script_fails = Completed 1 \<and> (1::int) \<noteq> 0
   \<and> sleep env_script_fails = None
   \<and> length (filter (\<lambda>ev. ev = SubprocessRun)
        (snd (alert_if_instrument_inactive env_script_fails registry3))) \<le> 1
   \<and> fst (alert_if_instrument_inactive env_script_fails registry3) = Inr ()
   \<and> monitoring registry3 0 [env_script_fails]
       = (StillRunning (Finite 600 0),
          [Query (select_max ''TA''), Log (TableValue ''TA'' (Timestamp 0)),
           Query (select_max ''TB''), Log (TableValue ''TB'' (Timestamp (Timedelta_minutes 15))),
           Query (select_max ''TC''), Log (TableValue ''TC'' (Timestamp (Timedelta_minutes 15))),
           SendMessage (alert_text [''A_1 (Fut)'']),
           SubprocessRun, Log (ScriptFailed (CalledProcessError 1)),
           Log (Sleeping (Finite 595 0)), Sleep (Finite 595 0)])
   \<and> (\<exists>rest. snd (monitoring registry3 0 [env_script_fails, env_all_fresh])
         = snd (alert_if_instrument_inactive env_script_fails registry3)
           @ [Log (Sleeping (Finite 595 0)), Sleep (Finite 595 0)]
           @ snd (alert_if_instrument_inactive env_all_fresh registry3) @ rest)"
proof -
  have run: "SubprocessRun \<in> set (snd (alert_if_instrument_inactive env_script_fails registry3))"
    by (simp add: alert_script_fails)
  have e: "script env_script_fails = Completed 1" "sleep env_script_fails = None"
    "time_after env_script_fails = Finite 5 0" "next_start env_script_fails = Finite 600 0"
    by (simp_all add: env_script_fails_def env_one_stale_def)
  have n: "(1::int) \<noteq> 0" by simp
  have d: "dless (Finite 5 0) (Finite 600 0)" by simp
  note c6 = C6_remediation_once_and_contained
              [of env_script_fails registry3 1 0 env_all_fresh "[]"]
  have once: "length (filter (\<lambda>ev. ev = SubprocessRun)
        (snd (alert_if_instrument_inactive env_script_fails registry3))) \<le> 1"
    using c6 by blast
  have rest: "monitoring registry3 0 [env_script_fails]
       = (StillRunning (Finite 600 0),
          snd (alert_if_instrument_inactive env_script_fails registry3)
            @ [Log (Sleeping (Finite 595 0)), Sleep (Finite 595 0)])
     \<and> (\<exists>rest. snd (monitoring registry3 0 [env_script_fails, env_all_fresh])
         = snd (alert_if_instrument_inactive env_script_fails registry3)
           @ [Log (Sleeping (Finite 595 0)), Sleep (Finite 595 0)]
           @ snd (alert_if_instrument_inactive env_all_fresh registry3) @ rest)"
    using c6 run e n d by (simp add: Let_def double_examples)
  show ?thesis
    using run e n once rest by (simp add: alert_script_fails)
qed

text \<open>
  C3 (amended): for a cycle that starts when the clock reads \<open>t0\<close> and returns
  normally, the deadline is \<open>t0 + 600\<close> and the delay is \<open>max(0, deadline - now)\<close>, both
  in the arithmetic of floats. When the clock has not reached the deadline the loop
  sleeps \<open>deadline - now\<close>; when it has, the loop does not sleep and the next cycle starts
  at once. The next cycle starts at the reading of the clock taken after the sleep has
  returned, and its deadline is counted from that reading: the counterexample below is a
  run where the sleep returns a quarter of a second late, the second cycle starts at
  600.25 and its deadline is 1200.25.
\<close>

theorem C3_delay_until_deadline:
  assumes "alert_if_instrument_inactive env insts = (Inr (), tr)"
  shows "(let deadline = dadd t0 (double_of_int (60 * 10)); now = time_after env
          in py_max_0 (dsub deadline now) = (if dless now deadline then dsub deadline now else 0)
             \<and> filter is_Sleep (snd (loop_body insts t0 env))
                 = (if dless now deadline then [Sleep (dsub deadline now)] else [])
             \<and> (dless now deadline \<longrightarrow> sleep env = None \<longrightarrow>
                  loop_body insts t0 env
                    = (Inr (next_start env),
                       tr @ [Log (Sleeping (dsub deadline now)), Sleep (dsub deadline now)]))
             \<and> (\<not> dless now deadline \<longrightarrow>
                  loop_body insts t0 env = (Inr (next_start env), tr))
             \<and> (fst (loop_body insts t0 env) = Inr (next_start env) \<longrightarrow>
                  while_True insts t0 (env # envs)
                    = emit (snd (loop_body insts t0 env)) (while_True insts (next_start env) envs)
                  \<and> (\<exists>rest. snd (monitoring insts t0 (env # env' # envs))
                               = snd (loop_body insts t0 env)
                                 @ snd (alert_if_instrument_inactive env' insts) @ rest)))"
proof -
  let ?deadline = "dadd t0 (double_of_int (60 * 10))"
  let ?now = "time_after env"
  have ns: "filter is_Sleep tr = []"
    using alert_trace_no_sleep [of env insts] assms by simp
  have m: "py_max_0 (dsub ?deadline ?now) = (if dless ?now ?deadline then dsub ?deadline ?now else 0)"
    by (rule py_max_0_dsub)
  have sleeps: "filter is_Sleep (snd (loop_body insts t0 env))
                 = (if dless ?now ?deadline then [Sleep (dsub ?deadline ?now)] else [])"
    using ns by (simp add: loop_body_completes [OF assms] split: option.splits)
  have early: "loop_body insts t0 env
                    = (Inr (next_start env),
                       tr @ [Log (Sleeping (dsub ?deadline ?now)), Sleep (dsub ?deadline ?now)])"
    if "dless ?now ?deadline" "sleep env = None"
    using that by (simp add: loop_body_completes [OF assms])
  have late: "loop_body insts t0 env = (Inr (next_start env), tr)"
    if "\<not> dless ?now ?deadline"
    using that by (simp add: loop_body_completes [OF assms])
  have next_cycle: "while_True insts t0 (env # envs)
                    = emit (snd (loop_body insts t0 env)) (while_True insts (next_start env) envs)
                  \<and> (\<exists>rest. snd (monitoring insts t0 (env # env' # envs))
                               = snd (loop_body insts t0 env)
                                 @ snd (alert_if_instrument_inactive env' insts) @ rest)"
    if "fst (loop_body insts t0 env) = Inr (next_start env)"
  proof -
    from that have l: "loop_body insts t0 env = (Inr (next_start env), snd (loop_body insts t0 env))"
      by (cases "loop_body insts t0 env") simp
    from while_True_continues [OF l, of envs] monitoring_two_cycles [OF l, of env' envs]
    show ?thesis by simp
  qed
  from m sleeps early late next_cycle show ?thesis
    unfolding Let_def by blast
qed

theorem C3_delay_until_deadline_witness:
  "fst (alert_if_instrument_inactive env_tenths registry3) = Inr ()
   \<and> dadd (Finite 3602879701896397 (- 55)) (double_of_int (60 * 10))
       = Finite 5278535422627021 (- 43)
   \<and> time_after env_tenths = Finite 1351079888211149 (- 52)
   \<and> dless (Finite 1351079888211149 (- 52)) (Finite 5278535422627021 (- 43))
   \<and> sleep env_tenths = None
   \<and> filter is_Sleep (snd (loop_body registry3 (Finite 3602879701896397 (- 55)) env_tenths))
       = [Sleep (Finite 5275896594720359 (- 43))]
   \<and> fst (loop_body registry3 (Finite 3602879701896397 (- 55)) env_tenths)
       = Inr (Finite 5278535422627021 (- 43))
   \<and> fst (alert_if_instrument_inactive env_slow registry3) = Inr ()
   \<and> time_after env_slow = Finite 700 0
   \<and> dadd 0 (double_of_int (60 * 10)) = Finite 600 0
   \<and> \<not> dless (Finite 700 0) (Finite 600 0)
   \<and> filter is_Sleep (snd (loop_body registry3 0 env_slow)) = []
   \<and> loop_body registry3 0 env_slow
       = (Inr (Finite 700 0), snd (alert_if_instrument_inactive env_slow registry3))"
proof -
  have t: "time_after env_tenths = Finite 1351079888211149 (- 52)" "sleep env_tenths = None"
    "next_start env_tenths = Finite 5278535422627021 (- 43)"
    by (simp_all add: env_tenths_def env_all_fresh_def env_one_stale_def)
  have s: "time_after env_slow = Finite 700 0" "next_start env_slow = Finite 700 0"
    by (simp_all add: env_slow_def)
  have at: "alert_if_instrument_inactive env_tenths registry3
              = (Inr (), snd (alert_if_instrument_inactive env_all_fresh registry3))"
    by (simp add: alert_tenths alert_all_fresh)
  have as: "alert_if_instrument_inactive env_slow registry3
              = (Inr (), snd (alert_if_instrument_inactive env_all_fresh registry3))"
    by (simp add: alert_slow alert_all_fresh)
  have d1: "dless (Finite 1351079888211149 (- 52)) (Finite 5278535422627021 (- 43))"
    by code_simp
  have d2: "\<not> dless (Finite 700 0) (Finite 600 0)"
    by simp
  have w1: "filter is_Sleep (snd (loop_body registry3 (Finite 3602879701896397 (- 55)) env_tenths))
       = [Sleep (Finite 5275896594720359 (- 43))]
     \<and> fst (loop_body registry3 (Finite 3602879701896397 (- 55)) env_tenths)
       = Inr (Finite 5278535422627021 (- 43))"
    using C3_delay_until_deadline [OF at, of "Finite 3602879701896397 (- 55)" "[]" env_slow] t d1
    by (simp add: Let_def double_examples alert_trace_no_sleep del: dadd.simps)
  have w2: "filter is_Sleep (snd (loop_body registry3 0 env_slow)) = []
     \<and> loop_body registry3 0 env_slow
       = (Inr (Finite 700 0), snd (alert_if_instrument_inactive env_slow registry3))"
    using C3_delay_until_deadline [OF as, of 0 "[]" env_slow] s d2
    by (simp add: Let_def double_examples as alert_trace_no_sleep)
  show ?thesis
    using t s d1 d2 w1 w2
    by (simp add: at as double_examples alert_trace_no_sleep del: dadd.simps)
qed

lemma alert_after_late:
  "alert_if_instrument_inactive env_after_late registry3
     = alert_if_instrument_inactive env_all_fresh registry3"
  by (rule alert_same_queries) (simp_all add: env_after_late_def)

theorem C3_late_wakeup_counterexample:
  "fst (alert_if_instrument_inactive env_late registry3) = Inr ()
   \<and> dadd 0 (double_of_int (60 * 10)) = Finite 600 0
   \<and> time_after env_late = Finite 5 0
   \<and> dless (Finite 5 0) (Finite 600 0)
   \<and> filter is_Sleep (snd (loop_body registry3 0 env_late)) = [Sleep (Finite 595 0)]
   \<and> fst (loop_body registry3 0 env_late) = Inr (Finite 2401 (- 2))
   \<and> dless (Finite 600 0) (Finite 2401 (- 2))
   \<and> time_after env_after_late = Finite 700 0
   \<and> filter is_Sleep (snd (monitoring registry3 0 [env_late, env_after_late]))
       = [Sleep (Finite 595 0), Sleep (Finite 2001 (- 2))]
   \<and> fst (monitoring registry3 0 [env_late, env_after_late]) = StillRunning (Finite 4801 (- 2))"
proof -
  let ?tr = "snd (alert_if_instrument_inactive env_all_fresh registry3)"
  have ns: "filter is_Sleep ?tr = []"
    by (rule alert_trace_no_sleep)
  have e1: "time_after env_late = Finite 5 0" "sleep env_late = None"
    "next_start env_late = Finite 2401 (- 2)"
    by (simp_all add: env_late_def env_all_fresh_def env_one_stale_def)
  have e2: "time_after env_after_late = Finite 700 0" "sleep env_after_late = None"
    "next_start env_after_late = Finite 4801 (- 2)"
    by (simp_all add: env_after_late_def env_all_fresh_def env_one_stale_def)
  have a1: "alert_if_instrument_inactive env_late registry3 = (Inr (), ?tr)"
    by (simp add: alert_late alert_all_fresh)
  have a2: "alert_if_instrument_inactive env_after_late registry3 = (Inr (), ?tr)"
    by (simp add: alert_after_late alert_all_fresh)
  have d: "dless (Finite 5 0) (Finite 600 0)" "dless (Finite 600 0) (Finite 2401 (- 2))"
    "dless (Finite 700 0) (Finite 4801 (- 2))"
    by simp_all
  have l1: "loop_body registry3 0 env_late
              = (Inr (Finite 2401 (- 2)),
                 ?tr @ [Log (Sleeping (Finite 595 0)), Sleep (Finite 595 0)])"
    using d by (simp add: loop_body_completes [OF a1] e1 double_examples)
  have l2: "loop_body registry3 (Finite 2401 (- 2)) env_after_late
              = (Inr (Finite 4801 (- 2)),
                 ?tr @ [Log (Sleeping (Finite 2001 (- 2))), Sleep (Finite 2001 (- 2))])"
    using d by (simp add: loop_body_completes [OF a2] e2 double_examples del: dadd.simps)
  have m: "monitoring registry3 0 [env_late, env_after_late]
             = (StillRunning (Finite 4801 (- 2)),
                ?tr @ [Log (Sleeping (Finite 595 0)), Sleep (Finite 595 0)]
                  @ ?tr @ [Log (Sleeping (Finite 2001 (- 2))), Sleep (Finite 2001 (- 2))])"
    by (simp add: monitoring_def l1 l2)
  show ?thesis
    using d by (simp add: m l1 a1 e1 e2 ns double_examples)
qed

section \<open>Startup\<close>

lemma startup_failed_outcome:
  "fst (startup_failed e tr) = (if is_TelegramError e then Returned else Raised e)"
  "snd (startup_failed e tr) = (if is_TelegramError e then tr @ [Log (InitError e)] else tr)"
  by (simp_all add: startup_failed_def)

text \<open>
  C9: if the constructor of the bot, \<^verbatim>\<open>get_me\<close> or the confirmation send raises, \<^verbatim>\<open>main\<close>
  ends at once: it returns after the error log line when a \<^verbatim>\<open>TelegramError\<close> was raised
  inside the startup block, and the exception leaves \<^verbatim>\<open>main\<close> otherwise. Nothing is
  tried twice, the result does not depend on the answers prepared for the cycles, and
  the trace has no query and no start of the monitoring: the loop never runs a cycle.
\<close>

theorem C9_startup_failure_is_fatal:
  assumes "Bot_init st = Some e
           \<or> (Bot_init st = None \<and> get_me st = Inl e)
           \<or> (Bot_init st = None \<and> get_me st = Inr username
               \<and> send_confirmation st (initialized_text username) = Some e)"
  shows "fst (main st insts clock cycles)
           = (if Bot_init st = None \<and> is_TelegramError e then Returned else Raised e)
         \<and> main st insts clock cycles = main st insts clock []
         \<and> filter is_Query (snd (main st insts clock cycles)) = []
         \<and> Log StartingMonitor \<notin> set (snd (main st insts clock cycles))
         \<and> length (filter (\<lambda>ev. ev = GetMe) (snd (main st insts clock cycles))) \<le> 1
         \<and> length (filter is_SendMessage (snd (main st insts clock cycles))) \<le> 1"
  using assms
  by (auto simp add: main_def startup_failed_def)

theorem C9_startup_failure_is_fatal_witness:
  "Bot_init startup_no_bot = Some TelegramError
   \<and> main startup_no_bot registry3 0 [env_one_stale] = (Raised TelegramError, [Log InitializingBot])
   \<and> Bot_init startup_no_identity = None \<and> get_me startup_no_identity = Inl TelegramError
   \<and> fst (main startup_no_identity registry3 0 [env_one_stale]) = Returned
   \<and> filter is_Query (snd (main startup_no_identity registry3 0 [env_one_stale])) = []
   \<and> Bot_init startup_no_confirmation = None \<and> get_me startup_no_confirmation = Inr ''alert_bot''
   \<and> send_confirmation startup_no_confirmation (initialized_text ''alert_bot'') = Some TelegramError
   \<and> fst (main startup_no_confirmation registry3 0 [env_one_stale]) = Returned
   \<and> filter is_Query (snd (main startup_no_confirmation registry3 0 [env_one_stale])) = []"
proof -
  have b: "Bot_init startup_no_bot = Some TelegramError"
    by (simp add: startup_no_bot_def)
  have i: "Bot_init startup_no_identity = None" "get_me startup_no_identity = Inl TelegramError"
    by (simp_all add: startup_no_identity_def startup_ok_def)
  have c: "Bot_init startup_no_confirmation = None"
    "get_me startup_no_confirmation = Inr ''alert_bot''"
    "send_confirmation startup_no_confirmation (initialized_text ''alert_bot'')
       = Some TelegramError"
    by (simp_all add: startup_no_confirmation_def startup_ok_def)
  have nb: "main startup_no_bot registry3 0 [] = (Raised TelegramError, [Log InitializingBot])"
    by (simp add: main_def b)
  have w1: "main startup_no_bot registry3 0 [env_one_stale]
              = (Raised TelegramError, [Log InitializingBot])"
    using C9_startup_failure_is_fatal
            [of startup_no_bot TelegramError "[]" registry3 0 "[env_one_stale]"] b nb
    by simp
  have ni: "main startup_no_identity registry3 0 []
              = (Returned, [Log InitializingBot, GetMe, Log (InitError TelegramError)])"
    by (simp add: main_def i startup_failed_def)
  have nc: "main startup_no_confirmation registry3 0 []
              = (Returned,
                 [Log InitializingBot, GetMe,
                  Log (BotInitialized (initialized_text ''alert_bot'')),
                  SendMessage (initialized_text ''alert_bot''),
                  Log (InitError TelegramError)])"
    by (simp add: main_def c startup_failed_def)
  have w2: "fst (main startup_no_identity registry3 0 [env_one_stale]) = Returned
            \<and> filter is_Query (snd (main startup_no_identity registry3 0 [env_one_stale])) = []"
    using C9_startup_failure_is_fatal
            [of startup_no_identity TelegramError "[]" registry3 0 "[env_one_stale]"] i ni
    by simp
  have w3: "fst (main startup_no_confirmation registry3 0 [env_one_stale]) = Returned
            \<and> filter is_Query (snd (main startup_no_confirmation registry3 0 [env_one_stale])) = []"
    using C9_startup_failure_is_fatal
            [of startup_no_confirmation TelegramError "''alert_bot''" registry3 0
               "[env_one_stale]"] c nc
    by simp
  show ?thesis using b i c w1 w2 w3 by simp
qed

end
